theory Spec2Isabelle
  imports Complex_Main
begin

section \<open>JavaScript values\<close>

text \<open>
  The watch-party servers (\<^verbatim>\<open>server.js\<close>, the socket relay, and \<^verbatim>\<open>index.js\<close>, the
  polling API) and their browser clients are JavaScript. A JavaScript number is modelled
  as a real number or \<^verbatim>\<open>NaN\<close>: rounding and the two infinities of IEEE doubles are left
  out, the arithmetic of the code is read over the reals.
\<close>

datatype jsnum = NaN | Fin real

fun js_add :: "jsnum \<Rightarrow> jsnum \<Rightarrow> jsnum" where
  "js_add (Fin a) (Fin b) = Fin (a + b)"
| "js_add _ _ = NaN"

fun js_sub :: "jsnum \<Rightarrow> jsnum \<Rightarrow> jsnum" where
  "js_sub (Fin a) (Fin b) = Fin (a - b)"
| "js_sub _ _ = NaN"

fun js_mul :: "jsnum \<Rightarrow> jsnum \<Rightarrow> jsnum" where
  "js_mul (Fin a) (Fin b) = Fin (a * b)"
| "js_mul _ _ = NaN"

text \<open>Division by the literal \<^verbatim>\<open>1000\<close>, the only division of the code.\<close>

fun js_div_1000 :: "jsnum \<Rightarrow> jsnum" where
  "js_div_1000 (Fin a) = Fin (a / 1000)"
| "js_div_1000 NaN = NaN"

text \<open>\<^verbatim>\<open>Math.abs\<close> and the comparison \<^verbatim>\<open>>\<close>, which is false as soon as one side is NaN.\<close>

fun js_abs :: "jsnum \<Rightarrow> jsnum" where
  "js_abs (Fin a) = Fin \<bar>a\<bar>"
| "js_abs NaN = NaN"

fun js_gt :: "jsnum \<Rightarrow> jsnum \<Rightarrow> bool" where
  "js_gt (Fin a) (Fin b) = (a > b)"
| "js_gt _ _ = False"

text \<open>Truthiness of a number: \<^verbatim>\<open>0\<close> and \<^verbatim>\<open>NaN\<close> are falsy.\<close>

definition num_truthy :: "jsnum \<Rightarrow> bool" where
  "num_truthy n = (n \<noteq> NaN \<and> n \<noteq> Fin 0)"

text \<open>\<^verbatim>\<open>a || b\<close> on numbers.\<close>

definition num_or :: "jsnum \<Rightarrow> jsnum \<Rightarrow> jsnum" where
  "num_or a b = (if num_truthy a then a else b)"

text \<open>
  The fields of a message or of a request body are unvalidated JSON. The primitive values
  are modelled; \<^verbatim>\<open>JUndefined\<close> is also what reading an absent field gives. Objects and
  arrays in the place of a number or of a text are outside the model.
\<close>

datatype jsval = JUndefined | JNull | JBool bool | JNum jsnum | JStr string

fun truthy :: "jsval \<Rightarrow> bool" where
  "truthy JUndefined = False"
| "truthy JNull = False"
| "truthy (JBool b) = b"
| "truthy (JNum n) = num_truthy n"
| "truthy (JStr s) = (s \<noteq> [])"

text \<open>\<^verbatim>\<open>a || b\<close> on values.\<close>

definition val_or :: "jsval \<Rightarrow> jsval \<Rightarrow> jsval" where
  "val_or a b = (if truthy a then a else b)"

text \<open>
  \<^verbatim>\<open>Number(v)\<close>. How the runtime reads a string as a number (\<^verbatim>\<open>StringToNumber\<close>) is the
  parameter \<open>s2n\<close>.
\<close>

fun js_Number :: "(string \<Rightarrow> jsnum) \<Rightarrow> jsval \<Rightarrow> jsnum" where
  "js_Number s2n JUndefined = NaN"
| "js_Number s2n JNull = Fin 0"
| "js_Number s2n (JBool b) = (if b then Fin 1 else Fin 0)"
| "js_Number s2n (JNum n) = n"
| "js_Number s2n (JStr s) = s2n s"

text \<open>
  \<^verbatim>\<open>String(v)\<close>. How the runtime prints a number (\<^verbatim>\<open>Number::toString\<close>) is the parameter
  \<open>n2s\<close>.
\<close>

fun js_String :: "(jsnum \<Rightarrow> string) \<Rightarrow> jsval \<Rightarrow> string" where
  "js_String n2s JUndefined = ''undefined''"
| "js_String n2s JNull = ''null''"
| "js_String n2s (JBool b) = (if b then ''true'' else ''false'')"
| "js_String n2s (JNum n) = n2s n"
| "js_String n2s (JStr s) = s"

text \<open>\<^verbatim>\<open>s.slice(0, n)\<close> for a literal \<open>n \<ge> 0\<close>: the first \<open>n\<close> code units.\<close>

definition slice_0 :: "nat \<Rightarrow> 'a list \<Rightarrow> 'a list" where
  "slice_0 n s = take n s"

text \<open>\<^verbatim>\<open>xs.slice(-n)\<close> for a literal \<open>n > 0\<close>: the last \<open>n\<close> elements, all of them if fewer.\<close>

definition slice_last :: "nat \<Rightarrow> 'a list \<Rightarrow> 'a list" where
  "slice_last n xs = drop (length xs - n) xs"

text \<open>
  \<^verbatim>\<open>String.prototype.trim\<close>: white space and line terminators are removed at both ends.
  Of the characters JavaScript counts as such, those below 256 are listed.
\<close>

definition js_space :: "char \<Rightarrow> bool" where
  "js_space c = (of_char c \<in> {9, 10, 11, 12, 13, 32, 160 :: nat})"

definition trim :: "string \<Rightarrow> string" where
  "trim s = rev (dropWhile js_space (rev (dropWhile js_space s)))"

text \<open>
  A JavaScript \<^verbatim>\<open>Map\<close> keeps its keys in insertion order: \<^verbatim>\<open>set\<close> on a present key
  replaces the value where it stands, on an absent key appends; \<^verbatim>\<open>delete\<close> removes the
  entry; \<^verbatim>\<open>keys().next()\<close> is the first key, or done.
\<close>

fun map_set :: "'k \<Rightarrow> 'v \<Rightarrow> ('k \<times> 'v) list \<Rightarrow> ('k \<times> 'v) list" where
  "map_set k v [] = [(k, v)]"
| "map_set k v ((k', v') # m) = (if k' = k then (k, v) # m else (k', v') # map_set k v m)"

definition map_delete :: "'k \<Rightarrow> ('k \<times> 'v) list \<Rightarrow> ('k \<times> 'v) list" where
  "map_delete k m = filter (\<lambda>e. fst e \<noteq> k) m"

definition map_keys :: "('k \<times> 'v) list \<Rightarrow> 'k list" where
  "map_keys m = map fst m"

definition map_values :: "('k \<times> 'v) list \<Rightarrow> 'v list" where
  "map_values m = map snd m"

fun keys_next :: "('k \<times> 'v) list \<Rightarrow> 'k option" where
  "keys_next [] = None"
| "keys_next ((k, v) # m) = Some k"

section \<open>The data of a room\<close>

datatype status = Paused | Playing

text \<open>
  \<^verbatim>\<open>playback: { status, at, rate, ts }\<close>. The relay stores numbers in \<^verbatim>\<open>at\<close> and
  \<^verbatim>\<open>rate\<close>, the polling API whatever the request carried, hence the parameter \<open>'v\<close>.
\<close>

record 'v playback =
  status :: status
  at_sec :: 'v
  rate :: 'v
  ts :: jsnum

text \<open>\<^verbatim>\<open>source: { type, url, videoId }\<close>, or null (\<open>None\<close>).\<close>

record source =
  type :: jsval
  url :: jsval
  videoId :: jsval

text \<open>
  A participant is \<^verbatim>\<open>{ id, name }\<close> in the relay; the polling API adds \<^verbatim>\<open>lastSeen\<close>.
\<close>

record participant =
  pid :: jsval
  name :: jsval

record seen_participant = participant +
  lastSeen :: real

text \<open>
  \<^verbatim>\<open>room = { id, hostId, participants, source, playback }\<close>. Identifiers are whatever the
  code puts there: \<^verbatim>\<open>null\<close>, a socket id, a value of a request body.
\<close>

record ('p, 'v) room =
  room_id :: jsval
  hostId :: jsval
  participants :: "(jsval \<times> 'p) list"
  source :: "source option"
  playback :: "'v playback"

section \<open>Room ids\<close>

definition alphabet :: string where
  "alphabet = ''ABCDEFGHJKLMNPQRSTUVWXYZ23456789''"

text \<open>
  What \<^verbatim>\<open>id += alphabet[Math.floor(r * alphabet.length)]\<close> appends for a draw \<open>r\<close> of
  \<^verbatim>\<open>Math.random()\<close>: an index outside the string reads \<^verbatim>\<open>undefined\<close>, which \<^verbatim>\<open>+=\<close>
  prints.
\<close>

definition pick :: "real \<Rightarrow> string" where
  "pick r =
     (let i = \<lfloor>r * real (length alphabet)\<rfloor>
      in if 0 \<le> i \<and> i < int (length alphabet) then [alphabet ! nat i] else ''undefined'')"

text \<open>
  \<^verbatim>\<open>makeRoomId()\<close>: the loop \<^verbatim>\<open>for (let i = 0; i < 6; i++)\<close>, where \<open>rnd i\<close> is the
  draw of round \<open>i\<close>.
\<close>

function makeRoomId_loop :: "(nat \<Rightarrow> real) \<Rightarrow> nat \<Rightarrow> string \<Rightarrow> string" where
  "makeRoomId_loop rnd i ident =
     (if i < 6 then makeRoomId_loop rnd (i + 1) (ident @ pick (rnd i)) else ident)"
  by pat_completeness auto
termination
  by (relation "measure (\<lambda>(rnd, i, ident). 6 - i)") auto

declare makeRoomId_loop.simps [simp del]

definition makeRoomId :: "(nat \<Rightarrow> real) \<Rightarrow> string" where
  "makeRoomId rnd = makeRoomId_loop rnd 0 []"

text \<open>The draws a second call of \<^verbatim>\<open>makeRoomId\<close> in the same handler reads.\<close>

definition later :: "(nat \<Rightarrow> real) \<Rightarrow> nat \<Rightarrow> real" where
  "later rnd i = rnd (i + 6)"

section \<open>The socket relay (server.js)\<close>

type_synonym relay_room = "(participant, jsnum) room"

text \<open>The summary \<^verbatim>\<open>{ id, hostId, source, playback }\<close> of a room.\<close>

type_synonym 'v summary = "jsval \<times> jsval \<times> source option \<times> 'v playback"

text \<open>What the relay sends, and to whom: the socket itself or every socket of a room.\<close>

datatype dest = To_socket string | To_room jsval

datatype sent =
    Room_welcome "jsnum summary" "participant list"
  | Room_participants "participant list"
  | Room_state "jsnum summary"
  | Player_set_source source "jsnum playback"
  | Player_play jsnum jsnum jsnum
  | Player_pause jsnum jsnum
  | Player_seek jsnum jsnum
  | Player_rate jsnum jsnum
  | Sync_state status jsnum jsnum jsnum "source option" jsval
  | Chat_message string jsval real string

text \<open>
  What a handler of one connection reads and writes: its variable \<^verbatim>\<open>joinedRoomId\<close>, the
  process-wide map \<^verbatim>\<open>rooms\<close>, and the messages sent so far. A room object is changed in
  place, so a change is written at the key under which the object was found. One reading of
  \<^verbatim>\<open>Date.now()\<close>, the argument \<open>now\<close>, serves a whole handler. Which sockets are
  subscribed to which room (\<^verbatim>\<open>socket.join\<close>, \<^verbatim>\<open>socket.leave\<close>) is left out. A message
  carries an object, whose fields the handler reads; a message without one makes the
  handler throw before it reads or writes anything, and is left out too.

  The repository holds a second copy of the relay, for serverless hosting. Its
  \<^verbatim>\<open>makeRoomId\<close>, \<^verbatim>\<open>getOrCreateRoom\<close>, \<^verbatim>\<open>effectiveTime\<close> and its join, play, pause,
  seek, rate, sync, chat and disconnect handlers have the text of \<^verbatim>\<open>server.js\<close>, with a
  \<^verbatim>\<open>setRoom(room)\<close> after each change, which stores the room under its id, where it
  stands already in every state the relay can reach; it accepts YouTube sources only and
  has no leave and no become-host handler.
\<close>

record relay =
  joinedRoomId :: jsval
  rooms :: "jsval \<rightharpoonup> relay_room"
  emitted :: "(dest \<times> sent) list"

datatype error = TypeError

definition new_room :: "(nat \<Rightarrow> real) \<Rightarrow> real \<Rightarrow> jsval \<Rightarrow> relay_room" where
  "new_room rnd now roomId =
     \<lparr>room_id = (if truthy roomId then roomId else JStr (makeRoomId rnd)),
      hostId = JNull,
      participants = [],
      source = None,
      playback = \<lparr>status = Paused, at_sec = Fin 0, rate = Fin 1, ts = Fin now\<rparr>\<rparr>"

text \<open>
  \<^verbatim>\<open>getOrCreateRoom(roomId)\<close>: the key under which the room it returns stands in the
  map, that room, and the map.
\<close>

definition getOrCreateRoom ::
  "(nat \<Rightarrow> real) \<Rightarrow> real \<Rightarrow> jsval \<Rightarrow> (jsval \<rightharpoonup> relay_room) \<Rightarrow>
     jsval \<times> relay_room \<times> (jsval \<rightharpoonup> relay_room)" where
  "getOrCreateRoom rnd now roomId rs =
     (case rs roomId of
        Some room \<Rightarrow> (roomId, room, rs)
      | None \<Rightarrow> (let room = new_room rnd now roomId
                 in (room_id room, room, rs(room_id room \<mapsto> room))))"

definition summarizeRoom :: "relay_room \<Rightarrow> jsnum summary" where
  "summarizeRoom room = (room_id room, hostId room, source room, playback room)"

definition listParticipants :: "relay_room \<Rightarrow> participant list" where
  "listParticipants room =
     map (\<lambda>p. \<lparr>pid = pid p, name = name p\<rparr>) (map_values (participants room))"

text \<open>
  \<^verbatim>\<open>(roomId && roomId.trim()) || makeRoomId()\<close>: a truthy \<^verbatim>\<open>roomId\<close> that is not a string
  has no \<^verbatim>\<open>trim\<close>, and the call throws.
\<close>

definition join_rid :: "(nat \<Rightarrow> real) \<Rightarrow> jsval \<Rightarrow> error + jsval" where
  "join_rid rnd roomId =
     (if \<not> truthy roomId then Inr (JStr (makeRoomId rnd))
      else case roomId of
             JStr s \<Rightarrow> Inr (if trim s \<noteq> [] then JStr (trim s) else JStr (makeRoomId rnd))
           | _ \<Rightarrow> Inl TypeError)"

text \<open>\<^verbatim>\<open>socket.on('room:join', ({ roomId, name }) => ...)\<close> of the socket \<open>sid\<close>.\<close>

definition room_join ::
  "(nat \<Rightarrow> real) \<Rightarrow> real \<Rightarrow> string \<Rightarrow> jsval \<Rightarrow> jsval \<Rightarrow> relay \<Rightarrow> error + relay" where
  "room_join rnd now sid roomId nm st =
     (case join_rid rnd roomId of
        Inl e \<Rightarrow> Inl e
      | Inr rid \<Rightarrow>
          (case getOrCreateRoom (later rnd) now rid (rooms st) of (key, room, rs) \<Rightarrow>
             (let room1 = room\<lparr>participants :=
                            map_set (JStr sid) \<lparr>pid = JStr sid, name = val_or nm (JStr ''Guest'')\<rparr>
                              (participants room)\<rparr>;
                  room2 = (if \<not> truthy (hostId room1) then room1\<lparr>hostId := JStr sid\<rparr>
                           else room1)
              in Inr \<lparr>joinedRoomId = room_id room2,
                      rooms = rs(key \<mapsto> room2),
                      emitted = emitted st @
                        [(To_socket sid, Room_welcome (summarizeRoom room2) (listParticipants room2)),
                         (To_room (room_id room2), Room_participants (listParticipants room2)),
                         (To_room (room_id room2), Room_state (summarizeRoom room2))]\<rparr>)))"

text \<open>
  The lines \<^verbatim>\<open>room:leave\<close> and \<^verbatim>\<open>disconnect\<close> share: the participant is deleted, and
  if it was the host, the first remaining key, or null, becomes the host.
\<close>

definition reassign_host :: "string \<Rightarrow> relay_room \<Rightarrow> relay_room" where
  "reassign_host sid room =
     (let room1 = room\<lparr>participants := map_delete (JStr sid) (participants room)\<rparr>
      in if hostId room1 = JStr sid
         then room1\<lparr>hostId := (case keys_next (participants room1) of
                                  Some k \<Rightarrow> k | None \<Rightarrow> JNull)\<rparr>
         else room1)"

text \<open>\<^verbatim>\<open>socket.on('room:leave', ...)\<close>.\<close>

definition room_leave :: "string \<Rightarrow> relay \<Rightarrow> relay" where
  "room_leave sid st =
     (if \<not> truthy (joinedRoomId st) then st
      else case rooms st (joinedRoomId st) of
             None \<Rightarrow> st
           | Some room \<Rightarrow>
               (let room1 = reassign_host sid room
                in \<lparr>joinedRoomId = JNull,
                    rooms = (rooms st)(joinedRoomId st \<mapsto> room1),
                    emitted = emitted st @
                      [(To_room (room_id room1), Room_participants (listParticipants room1)),
                       (To_room (room_id room1), Room_state (summarizeRoom room1))]\<rparr>))"

text \<open>\<^verbatim>\<open>socket.on('disconnect', ...)\<close>.\<close>

definition disconnect :: "string \<Rightarrow> relay \<Rightarrow> relay" where
  "disconnect sid st =
     (if \<not> truthy (joinedRoomId st) then st
      else case rooms st (joinedRoomId st) of
             None \<Rightarrow> st
           | Some room \<Rightarrow>
               (let room1 = reassign_host sid room
                in st\<lparr>rooms := (rooms st)(joinedRoomId st \<mapsto> room1),
                      emitted := emitted st @
                        [(To_room (room_id room1), Room_participants (listParticipants room1)),
                         (To_room (room_id room1), Room_state (summarizeRoom room1))]\<rparr>))"

text \<open>\<^verbatim>\<open>socket.on('role:become-host', ...)\<close>.\<close>

definition role_become_host :: "string \<Rightarrow> relay \<Rightarrow> relay" where
  "role_become_host sid st =
     (if \<not> truthy (joinedRoomId st) then st
      else case rooms st (joinedRoomId st) of
             None \<Rightarrow> st
           | Some room \<Rightarrow>
               (if \<not> truthy (hostId room)
                then (let room1 = room\<lparr>hostId := JStr sid\<rparr>
                      in st\<lparr>rooms := (rooms st)(joinedRoomId st \<mapsto> room1),
                            emitted := emitted st @
                              [(To_room (room_id room1), Room_state (summarizeRoom room1))]\<rparr>)
                else st))"

section \<open>The playback clock (server.js)\<close>

text \<open>
  \<^verbatim>\<open>effectiveTime(playback)\<close>; the reading of \<^verbatim>\<open>Date.now()\<close> is the argument \<open>now\<close>,
  in milliseconds.
\<close>

definition effectiveTime :: "real \<Rightarrow> jsnum playback \<Rightarrow> jsnum" where
  "effectiveTime now pb =
     (if status pb \<noteq> Playing then at_sec pb
      else let dt = js_div_1000 (js_sub (Fin now) (ts pb))
           in js_add (at_sec pb) (js_mul dt (num_or (rate pb) (Fin 1))))"

section \<open>The relay's player commands (server.js)\<close>

text \<open>
  The five player handlers open with the same checks, \<^verbatim>\<open>if (!joinedRoomId) return;\<close> and
  \<^verbatim>\<open>if (!room || room.hostId !== socket.id) return;\<close>: \<open>host_room\<close> is the room they go
  on with, if any.
\<close>

definition host_room :: "string \<Rightarrow> relay \<Rightarrow> relay_room option" where
  "host_room sid st =
     (if \<not> truthy (joinedRoomId st) then None
      else case rooms st (joinedRoomId st) of
             None \<Rightarrow> None
           | Some room \<Rightarrow> (if hostId room \<noteq> JStr sid then None else Some room))"

text \<open>
  \<^verbatim>\<open>socket.on('player:set-source', (payload) => ...)\<close>; a falsy payload is \<open>None\<close>.
\<close>

definition player_set_source :: "real \<Rightarrow> string \<Rightarrow> source option \<Rightarrow> relay \<Rightarrow> relay" where
  "player_set_source now sid payload st =
     (case host_room sid st of
        None \<Rightarrow> st
      | Some room \<Rightarrow>
          (case payload of
             None \<Rightarrow> st
           | Some p \<Rightarrow>
               (if \<not> truthy (type p) \<or> \<not> truthy (url p) then st
                else
                  (let room1 = room
                         \<lparr>source := Some \<lparr>type = type p, url = url p,
                                           videoId = val_or (videoId p) JNull\<rparr>,
                          playback := \<lparr>status = Paused, at_sec = Fin 0, rate = Fin 1,
                                       ts = Fin now\<rparr>\<rparr>
                   in st\<lparr>rooms := (rooms st)(joinedRoomId st \<mapsto> room1),
                         emitted := emitted st @
                           [(To_room (room_id room1),
                             Player_set_source
                               \<lparr>type = type p, url = url p, videoId = val_or (videoId p) JNull\<rparr>
                               (playback room1))]\<rparr>))))"

text \<open>\<^verbatim>\<open>socket.on('player:play', ({ at, rate, ts }) => ...)\<close>.\<close>

definition player_play ::
  "(string \<Rightarrow> jsnum) \<Rightarrow> real \<Rightarrow> string \<Rightarrow> jsval \<Rightarrow> jsval \<Rightarrow> jsval \<Rightarrow> relay \<Rightarrow> relay" where
  "player_play s2n now sid at_v rate_v ts_v st =
     (case host_room sid st of
        None \<Rightarrow> st
      | Some room \<Rightarrow>
          (let pb = \<lparr>status = Playing,
                     at_sec = num_or (js_Number s2n at_v) (Fin 0),
                     rate = num_or (js_Number s2n rate_v) (Fin 1),
                     ts = num_or (js_Number s2n ts_v) (Fin now)\<rparr>
           in st\<lparr>rooms := (rooms st)(joinedRoomId st \<mapsto> room\<lparr>playback := pb\<rparr>),
                 emitted := emitted st @
                   [(To_room (room_id room), Player_play (at_sec pb) (rate pb) (ts pb))]\<rparr>))"

text \<open>\<^verbatim>\<open>socket.on('player:pause', ({ at, ts }) => ...)\<close>.\<close>

definition player_pause ::
  "(string \<Rightarrow> jsnum) \<Rightarrow> real \<Rightarrow> string \<Rightarrow> jsval \<Rightarrow> jsval \<Rightarrow> relay \<Rightarrow> relay" where
  "player_pause s2n now sid at_v ts_v st =
     (case host_room sid st of
        None \<Rightarrow> st
      | Some room \<Rightarrow>
          (let pb = (playback room)
                      \<lparr>status := Paused,
                       at_sec := num_or (js_Number s2n at_v) (Fin 0),
                       ts := num_or (js_Number s2n ts_v) (Fin now)\<rparr>
           in st\<lparr>rooms := (rooms st)(joinedRoomId st \<mapsto> room\<lparr>playback := pb\<rparr>),
                 emitted := emitted st @
                   [(To_room (room_id room), Player_pause (at_sec pb) (ts pb))]\<rparr>))"

text \<open>\<^verbatim>\<open>socket.on('player:seek', ({ to, ts }) => ...)\<close>.\<close>

definition player_seek ::
  "(string \<Rightarrow> jsnum) \<Rightarrow> real \<Rightarrow> string \<Rightarrow> jsval \<Rightarrow> jsval \<Rightarrow> relay \<Rightarrow> relay" where
  "player_seek s2n now sid to_v ts_v st =
     (case host_room sid st of
        None \<Rightarrow> st
      | Some room \<Rightarrow>
          (let pb = (playback room)
                      \<lparr>at_sec := num_or (js_Number s2n to_v) (Fin 0),
                       ts := num_or (js_Number s2n ts_v) (Fin now)\<rparr>
           in st\<lparr>rooms := (rooms st)(joinedRoomId st \<mapsto> room\<lparr>playback := pb\<rparr>),
                 emitted := emitted st @
                   [(To_room (room_id room), Player_seek (at_sec pb) (ts pb))]\<rparr>))"

text \<open>\<^verbatim>\<open>socket.on('player:rate', ({ rate, ts }) => ...)\<close>.\<close>

definition player_rate ::
  "(string \<Rightarrow> jsnum) \<Rightarrow> real \<Rightarrow> string \<Rightarrow> jsval \<Rightarrow> jsval \<Rightarrow> relay \<Rightarrow> relay" where
  "player_rate s2n now sid rate_v ts_v st =
     (case host_room sid st of
        None \<Rightarrow> st
      | Some room \<Rightarrow>
          (let pb = (playback room)
                      \<lparr>rate := num_or (js_Number s2n rate_v) (Fin 1),
                       ts := num_or (js_Number s2n ts_v) (Fin now)\<rparr>
           in st\<lparr>rooms := (rooms st)(joinedRoomId st \<mapsto> room\<lparr>playback := pb\<rparr>),
                 emitted := emitted st @
                   [(To_room (room_id room), Player_rate (rate pb) (ts pb))]\<rparr>))"

text \<open>\<^verbatim>\<open>socket.on('sync:request', ...)\<close>.\<close>

definition sync_request :: "real \<Rightarrow> string \<Rightarrow> relay \<Rightarrow> relay" where
  "sync_request now sid st =
     (if \<not> truthy (joinedRoomId st) then st
      else case rooms st (joinedRoomId st) of
             None \<Rightarrow> st
           | Some room \<Rightarrow>
               st\<lparr>emitted := emitted st @
                     [(To_socket sid,
                       Sync_state (status (playback room)) (effectiveTime now (playback room))
                         (rate (playback room)) (Fin now) (source room) (hostId room))]\<rparr>)"

text \<open>\<^verbatim>\<open>socket.on('chat:message', ({ text, name }) => ...)\<close>.\<close>

definition chat_message ::
  "(jsnum \<Rightarrow> string) \<Rightarrow> real \<Rightarrow> string \<Rightarrow> jsval \<Rightarrow> jsval \<Rightarrow> relay \<Rightarrow> relay" where
  "chat_message n2s now sid text_v nm st =
     (if \<not> truthy (joinedRoomId st) \<or> \<not> truthy text_v then st
      else (let safe = slice_0 1000 (js_String n2s text_v)
            in st\<lparr>emitted := emitted st @
                     [(To_room (joinedRoomId st),
                       Chat_message safe (val_or nm (JStr ''Anon'')) now sid)]\<rparr>))"

section \<open>The relay as a whole (server.js)\<close>

text \<open>
  \<^verbatim>\<open>io.on('connection', (socket) => { let joinedRoomId = null; ... })\<close>: every live
  connection has its own \<^verbatim>\<open>joinedRoomId\<close>, and all share \<^verbatim>\<open>rooms\<close>.
\<close>

record hub =
  all_rooms :: "jsval \<rightharpoonup> relay_room"
  conns :: "string \<rightharpoonup> jsval"

datatype msg =
    Room_join jsval jsval
  | Room_leave
  | Role_become_host
  | Set_source "source option"
  | Play jsval jsval jsval
  | Pause jsval jsval
  | Seek jsval jsval
  | Rate jsval jsval
  | Sync_request
  | Chat jsval jsval

text \<open>The runtime around a handler: the random draws, the clock and the two conversions.\<close>

record env =
  draws :: "nat \<Rightarrow> real"
  clock :: real
  str2num :: "string \<Rightarrow> jsnum"
  num2str :: "jsnum \<Rightarrow> string"

fun handle :: "env \<Rightarrow> string \<Rightarrow> msg \<Rightarrow> relay \<Rightarrow> error + relay" where
  "handle e sid (Room_join roomId nm) st = room_join (draws e) (clock e) sid roomId nm st"
| "handle e sid Room_leave st = Inr (room_leave sid st)"
| "handle e sid Role_become_host st = Inr (role_become_host sid st)"
| "handle e sid (Set_source payload) st = Inr (player_set_source (clock e) sid payload st)"
| "handle e sid (Play a r t) st = Inr (player_play (str2num e) (clock e) sid a r t st)"
| "handle e sid (Pause a t) st = Inr (player_pause (str2num e) (clock e) sid a t st)"
| "handle e sid (Seek a t) st = Inr (player_seek (str2num e) (clock e) sid a t st)"
| "handle e sid (Rate r t) st = Inr (player_rate (str2num e) (clock e) sid r t st)"
| "handle e sid Sync_request st = Inr (sync_request (clock e) sid st)"
| "handle e sid (Chat text_v nm) st = Inr (chat_message (num2str e) (clock e) sid text_v nm st)"

text \<open>What one connection sees of the hub.\<close>

definition view :: "hub \<Rightarrow> jsval \<Rightarrow> relay" where
  "view h j = \<lparr>joinedRoomId = j, rooms = all_rooms h, emitted = []\<rparr>"

text \<open>
  The states the relay can be in: it starts empty; a socket connects under an id no live
  connection has; a live connection delivers a message whose handler returns; a live
  connection ends, and its \<^verbatim>\<open>disconnect\<close> handler runs.
\<close>

inductive reachable :: "hub \<Rightarrow> bool" where
  start: "reachable \<lparr>all_rooms = Map.empty, conns = Map.empty\<rparr>"
| connect: "reachable h \<Longrightarrow> conns h sid = None \<Longrightarrow>
            reachable (h\<lparr>conns := (conns h)(sid \<mapsto> JNull)\<rparr>)"
| deliver: "reachable h \<Longrightarrow> conns h sid = Some j \<Longrightarrow> handle e sid m (view h j) = Inr st \<Longrightarrow>
            reachable \<lparr>all_rooms = rooms st, conns = (conns h)(sid \<mapsto> joinedRoomId st)\<rparr>"
| hangup: "reachable h \<Longrightarrow> conns h sid = Some j \<Longrightarrow>
           reachable \<lparr>all_rooms = rooms (disconnect sid (view h j)), conns = (conns h)(sid := None)\<rparr>"

section \<open>The polling API (index.js)\<close>

text \<open>\<^verbatim>\<open>message = { id, text, name, userId, timestamp }\<close>.\<close>

record message =
  msg_id :: string
  msg_text :: string
  msg_name :: jsval
  userId :: jsval
  timestamp :: real

record ('p, 'v) chat_room = "('p, 'v) room" +
  messages :: "message list"

type_synonym api_room = "(seen_participant, jsval) chat_room"

datatype response =
    Reply_join "jsval summary" "seen_participant list"
  | Reply_room "jsval summary" "seen_participant list" "message list"
  | Reply_error nat string
  | Reply_success

text \<open>
  \<^verbatim>\<open>getOrCreateRoom(roomId)\<close> of \<^verbatim>\<open>index.js\<close>: the key, the room it returns and the
  map.
\<close>

definition api_getOrCreateRoom ::
  "(nat \<Rightarrow> real) \<Rightarrow> real \<Rightarrow> jsval \<Rightarrow> (jsval \<rightharpoonup> api_room) \<Rightarrow>
     jsval \<times> api_room \<times> (jsval \<rightharpoonup> api_room)" where
  "api_getOrCreateRoom rnd now roomId rs =
     (let rid = (if \<not> truthy roomId then JStr (makeRoomId rnd) else roomId)
      in case rs rid of
           Some room \<Rightarrow> (rid, room, rs)
         | None \<Rightarrow>
             (let room = \<lparr>room_id = rid, hostId = JNull, participants = [], source = None,
                          playback = \<lparr>status = Paused, at_sec = JNum (Fin 0),
                                      rate = JNum (Fin 1), ts = Fin now\<rparr>,
                          messages = []\<rparr>
              in (rid, room, rs(rid \<mapsto> room))))"

definition api_summary :: "api_room \<Rightarrow> jsval summary" where
  "api_summary room = (room_id room, hostId room, source room, playback room)"

text \<open>\<^verbatim>\<open>POST /api/room/join\<close> with the body \<^verbatim>\<open>{ roomId, name, userId }\<close>.\<close>

definition api_join ::
  "(nat \<Rightarrow> real) \<Rightarrow> real \<Rightarrow> jsval \<Rightarrow> jsval \<Rightarrow> jsval \<Rightarrow> (jsval \<rightharpoonup> api_room) \<Rightarrow>
     response \<times> (jsval \<rightharpoonup> api_room)" where
  "api_join rnd now roomId nm uid rs =
     (case api_getOrCreateRoom rnd now roomId rs of (key, room, rs1) \<Rightarrow>
        (let room1 = room\<lparr>participants :=
                       map_set uid \<lparr>pid = uid, name = val_or nm (JStr ''Guest''), lastSeen = now\<rparr>
                         (participants room)\<rparr>;
             room2 = (if \<not> truthy (hostId room1) then room1\<lparr>hostId := uid\<rparr> else room1)
         in (Reply_join (api_summary room2) (map_values (participants room2)),
             rs1(key \<mapsto> room2))))"

text \<open>\<^verbatim>\<open>GET /api/room/:roomId\<close>; a path parameter is a string.\<close>

definition api_get_room :: "string \<Rightarrow> (jsval \<rightharpoonup> api_room) \<Rightarrow> response" where
  "api_get_room roomId rs =
     (case rs (JStr roomId) of
        None \<Rightarrow> Reply_error 404 ''Room not found''
      | Some room \<Rightarrow>
          Reply_room (api_summary room) (map_values (participants room))
            (slice_last 20 (messages room)))"

text \<open>\<^verbatim>\<open>a !== b\<close>: NaN differs from itself.\<close>

definition strict_neq :: "jsval \<Rightarrow> jsval \<Rightarrow> bool" where
  "strict_neq a b = (a \<noteq> b \<or> a = JNum NaN)"

text \<open>\<^verbatim>\<open>POST /api/room/:roomId/source\<close> with the body \<^verbatim>\<open>{ userId, source }\<close>.\<close>

definition api_source ::
  "real \<Rightarrow> string \<Rightarrow> jsval \<Rightarrow> source option \<Rightarrow> (jsval \<rightharpoonup> api_room) \<Rightarrow>
     response \<times> (jsval \<rightharpoonup> api_room)" where
  "api_source now roomId uid src rs =
     (case rs (JStr roomId) of
        None \<Rightarrow> (Reply_error 404 ''Room not found'', rs)
      | Some room \<Rightarrow>
          (if strict_neq (hostId room) uid then (Reply_error 403 ''Only host can set source'', rs)
           else (Reply_success,
                 rs(JStr roomId \<mapsto> room
                      \<lparr>source := src,
                       playback := \<lparr>status = Paused, at_sec = JNum (Fin 0), rate = JNum (Fin 1),
                                    ts = Fin now\<rparr>\<rparr>))))"

text \<open>
  \<^verbatim>\<open>POST /api/room/:roomId/playback\<close> with the body \<^verbatim>\<open>{ userId, action, ...data }\<close>, of
  which \<^verbatim>\<open>data.at\<close>, \<^verbatim>\<open>data.rate\<close> and \<^verbatim>\<open>data.to\<close> are read.
\<close>

definition api_playback ::
  "real \<Rightarrow> string \<Rightarrow> jsval \<Rightarrow> jsval \<Rightarrow> jsval \<Rightarrow> jsval \<Rightarrow> jsval \<Rightarrow> (jsval \<rightharpoonup> api_room) \<Rightarrow>
     response \<times> (jsval \<rightharpoonup> api_room)" where
  "api_playback now roomId uid action data_at data_rate data_to rs =
     (case rs (JStr roomId) of
        None \<Rightarrow> (Reply_error 404 ''Room not found'', rs)
      | Some room \<Rightarrow>
          (if strict_neq (hostId room) uid
           then (Reply_error 403 ''Only host can control playback'', rs)
           else (Reply_success,
                 rs(JStr roomId \<mapsto>
                      (if action = JStr ''play'' then
                         room\<lparr>playback := \<lparr>status = Playing, at_sec = data_at,
                                            rate = val_or data_rate (JNum (Fin 1)),
                                            ts = Fin now\<rparr>\<rparr>
                       else if action = JStr ''pause'' then
                         room\<lparr>playback := \<lparr>status = Paused, at_sec = data_at,
                                            rate = rate (playback room), ts = Fin now\<rparr>\<rparr>
                       else if action = JStr ''seek'' then
                         room\<lparr>playback := (playback room)\<lparr>at_sec := data_to, ts := Fin now\<rparr>\<rparr>
                       else if action = JStr ''rate'' then
                         room\<lparr>playback := (playback room)\<lparr>rate := data_rate, ts := Fin now\<rparr>\<rparr>
                       else room)))))"

text \<open>\<^verbatim>\<open>POST /api/room/:roomId/chat\<close> with the body \<^verbatim>\<open>{ userId, text, name }\<close>.\<close>

definition api_chat ::
  "(jsnum \<Rightarrow> string) \<Rightarrow> real \<Rightarrow> string \<Rightarrow> jsval \<Rightarrow> jsval \<Rightarrow> jsval \<Rightarrow> (jsval \<rightharpoonup> api_room) \<Rightarrow>
     response \<times> (jsval \<rightharpoonup> api_room)" where
  "api_chat n2s now roomId uid text_v nm rs =
     (case rs (JStr roomId) of
        None \<Rightarrow> (Reply_error 404 ''Room not found'', rs)
      | Some room \<Rightarrow>
          (let message = \<lparr>msg_id = n2s (Fin now),
                          msg_text = slice_0 1000 (js_String n2s text_v),
                          msg_name = val_or nm (JStr ''Anon''),
                          userId = uid,
                          timestamp = now\<rparr>;
               pushed = messages room @ [message];
               kept = (if length pushed > 100 then slice_last 50 pushed else pushed)
           in (Reply_success, rs(JStr roomId \<mapsto> room\<lparr>messages := kept\<rparr>))))"

text \<open>The requests of the API, and the maps of rooms they can lead to from the empty one.\<close>

datatype request =
    Post_join jsval jsval jsval
  | Post_source string jsval "source option"
  | Post_playback string jsval jsval jsval jsval jsval
  | Post_chat string jsval jsval jsval

fun serve :: "env \<Rightarrow> request \<Rightarrow> (jsval \<rightharpoonup> api_room) \<Rightarrow> response \<times> (jsval \<rightharpoonup> api_room)" where
  "serve e (Post_join roomId nm uid) rs = api_join (draws e) (clock e) roomId nm uid rs"
| "serve e (Post_source roomId uid src) rs = api_source (clock e) roomId uid src rs"
| "serve e (Post_playback roomId uid action a r t) rs =
     api_playback (clock e) roomId uid action a r t rs"
| "serve e (Post_chat roomId uid text_v nm) rs =
     api_chat (num2str e) (clock e) roomId uid text_v nm rs"

inductive api_reachable :: "(jsval \<rightharpoonup> api_room) \<Rightarrow> bool" where
  api_start: "api_reachable Map.empty"
| api_step: "api_reachable rs \<Longrightarrow> api_reachable (snd (serve e req rs))"

section \<open>The client (public/app.js, in both variants)\<close>

text \<open>What the client asks of its player.\<close>

datatype player_cmd = SetRate jsnum | SeekTo jsnum | DoPlay | DoPause

text \<open>
  The position \<^verbatim>\<open>target\<close> of \<^verbatim>\<open>applyPlayback\<close>:
  \<^verbatim>\<open>status === 'playing' ? (at + (nowMs()-ts)/1000) : at\<close>.
\<close>

definition target :: "real \<Rightarrow> jsnum playback \<Rightarrow> jsnum" where
  "target now pb =
     (if status pb = Playing then js_add (at_sec pb) (js_div_1000 (js_sub (Fin now) (ts pb)))
      else at_sec pb)"

text \<open>
  \<^verbatim>\<open>applyPlayback(pb)\<close>. The player, if one is loaded, is given by what its \<^verbatim>\<open>getTime()\<close>
  returns; \<^verbatim>\<open>0.5\<close> is \<open>1 / 2\<close>.
\<close>

definition applyPlayback :: "real \<Rightarrow> jsnum option \<Rightarrow> jsnum playback option \<Rightarrow> player_cmd list" where
  "applyPlayback now player pbo =
     (case player of
        None \<Rightarrow> []
      | Some cur \<Rightarrow>
          (case pbo of
             None \<Rightarrow> []
           | Some pb \<Rightarrow>
               [SetRate (num_or (rate pb) (Fin 1))] @
               (if js_gt (js_abs (js_sub cur (target now pb))) (Fin (1 / 2))
                then [SeekTo (target now pb)] else []) @
               (if status pb = Playing then [DoPlay] else [DoPause])))"

text \<open>
  \<^verbatim>\<open>socket.on('sync:state', ...)\<close> of the socket client. \<open>reload\<close> says that the message
  carries a source other than the current one: the client then loads it and applies the
  snapshot through \<^verbatim>\<open>updateSource\<close> and \<^verbatim>\<open>applyPlayback\<close>, once the player is ready.
  \<^verbatim>\<open>0.35\<close> is \<open>35 / 100\<close>.
\<close>

datatype reaction = Reload "jsnum playback" | Commands "player_cmd list"

definition on_sync_state ::
  "real \<Rightarrow> bool \<Rightarrow> jsnum option \<Rightarrow> bool \<Rightarrow> jsnum playback \<Rightarrow> reaction" where
  "on_sync_state now isHost player reload pb =
     (case player of
        None \<Rightarrow> Commands []
      | Some cur \<Rightarrow>
          (if isHost then Commands []
           else if reload then Reload pb
           else if status pb = Playing then
             (let tgt = js_add (at_sec pb) (js_div_1000 (js_sub (Fin now) (ts pb)))
              in Commands
                   ((if js_gt (js_abs (js_sub cur tgt)) (Fin (35 / 100))
                     then [SeekTo tgt, DoPlay] else [DoPlay]) @
                    [SetRate (num_or (rate pb) (Fin 1))]))
           else Commands [DoPause, SeekTo (at_sec pb)]))"

section \<open>Example states\<close>

text \<open>
  A room of the relay with the code \<^verbatim>\<open>ROOM42\<close>, hosted by the socket \<^verbatim>\<open>a\<close>, with the
  second participant \<^verbatim>\<open>b\<close>, and the same room in the polling API.
\<close>

definition ex_room :: relay_room where
  "ex_room =
     \<lparr>room_id = JStr ''ROOM42'', hostId = JStr ''a'',
      participants = [(JStr ''a'', \<lparr>pid = JStr ''a'', name = JStr ''Ann''\<rparr>),
                      (JStr ''b'', \<lparr>pid = JStr ''b'', name = JStr ''Bob''\<rparr>)],
      source = None,
      playback = \<lparr>status = Playing, at_sec = Fin 10, rate = Fin 2, ts = Fin 500\<rparr>\<rparr>"

definition ex_relay :: relay where
  "ex_relay = \<lparr>joinedRoomId = JStr ''ROOM42'', rooms = [JStr ''ROOM42'' \<mapsto> ex_room], emitted = []\<rparr>"

definition ex_api_room :: api_room where
  "ex_api_room =
     \<lparr>room_id = JStr ''ROOM42'', hostId = JStr ''a'',
      participants = [(JStr ''a'', \<lparr>pid = JStr ''a'', name = JStr ''Ann'', lastSeen = 0\<rparr>),
                      (JStr ''b'', \<lparr>pid = JStr ''b'', name = JStr ''Bob'', lastSeen = 1\<rparr>)],
      source = None,
      playback = \<lparr>status = Playing, at_sec = JNum (Fin 10), rate = JNum (Fin 2), ts = Fin 500\<rparr>,
      messages = []\<rparr>"

definition ex_api_rooms :: "jsval \<rightharpoonup> api_room" where
  "ex_api_rooms = [JStr ''ROOM42'' \<mapsto> ex_api_room]"

text \<open>A runtime for the examples: every draw is 0, the clock reads 9000.\<close>

definition ex_env :: env where
  "ex_env = \<lparr>draws = (\<lambda>i. 0), clock = 9000, str2num = (\<lambda>s. NaN), num2str = (\<lambda>n. ''9000'')\<rparr>"

text \<open>The API after one join, and a room of the API whose history holds 100 messages.\<close>

definition ex_api_joined :: "jsval \<rightharpoonup> api_room" where
  "ex_api_joined =
     snd (serve ex_env (Post_join (JStr ''ROOM42'') (JStr ''Ann'') (JStr ''a'')) Map.empty)"

definition ex_full_rooms :: "jsval \<rightharpoonup> api_room" where
  "ex_full_rooms =
     [JStr ''ROOM42'' \<mapsto>
        ex_api_room\<lparr>messages :=
          replicate 100 \<lparr>msg_id = ''1'', msg_text = ''hi'', msg_name = JStr ''Ann'',
                          userId = JStr ''a'', timestamp = 1\<rparr>\<rparr>]"


section \<open>Invariants\<close>

text \<open>The invariant of the data model: the host, when not null, is a key of the participants.\<close>

definition host_is_participant :: "('p, 'v, 'm) room_scheme \<Rightarrow> bool" where
  "host_is_participant room =
     (hostId room \<noteq> JNull \<longrightarrow> hostId room \<in> set (map_keys (participants room)))"

text \<open>
  What holds of every room of the relay, and of every connection: a room stands under its
  own id, which is truthy; its host is null or a participant; its participants are socket
  ids; its stored rate is a number other than 0 and its stored position is a number; and a
  connection that has joined a room is a participant of that room.
\<close>

definition member :: "string \<Rightarrow> relay_room \<Rightarrow> bool" where
  "member sid room = (JStr sid \<in> set (map_keys (participants room)))"

definition room_ok :: "jsval \<Rightarrow> relay_room \<Rightarrow> bool" where
  "room_ok k room =
     (room_id room = k \<and> truthy k \<and> host_is_participant room \<and>
      (\<forall>p \<in> set (map_keys (participants room)). \<exists>s. p = JStr s) \<and>
      num_truthy (rate (playback room)) \<and> at_sec (playback room) \<noteq> NaN)"

definition hub_inv :: "hub \<Rightarrow> bool" where
  "hub_inv h =
     ((\<forall>k room. all_rooms h k = Some room \<longrightarrow> room_ok k room) \<and>
      (\<forall>sid j. conns h sid = Some j \<longrightarrow> truthy j \<longrightarrow>
         (\<exists>room. all_rooms h j = Some room \<and> member sid room)))"

section \<open>Runs\<close>

text \<open>
  The relay run on a list of events, from the empty start: a socket connects, a live
  connection delivers a message, a live connection ends. An event of a socket that is not
  connected does not occur and is skipped; so is a connect under an id in use. The one
  handler that can throw, \<^verbatim>\<open>room:join\<close>, throws before it writes: the state is then the one
  before the message.
\<close>

datatype event = Connects string | Delivers env string msg | Hangs_up string

fun step :: "hub \<Rightarrow> event \<Rightarrow> hub" where
  "step h (Connects sid) =
     (case conns h sid of
        None \<Rightarrow> h\<lparr>conns := (conns h)(sid \<mapsto> JNull)\<rparr>
      | Some j \<Rightarrow> h)"
| "step h (Delivers e sid m) =
     (case conns h sid of
        None \<Rightarrow> h
      | Some j \<Rightarrow>
          (case handle e sid m (view h j) of
             Inl err \<Rightarrow> h
           | Inr st \<Rightarrow> \<lparr>all_rooms = rooms st, conns = (conns h)(sid \<mapsto> joinedRoomId st)\<rparr>))"
| "step h (Hangs_up sid) =
     (case conns h sid of
        None \<Rightarrow> h
      | Some j \<Rightarrow> \<lparr>all_rooms = rooms (disconnect sid (view h j)), conns = (conns h)(sid := None)\<rparr>)"

definition run :: "event list \<Rightarrow> hub" where
  "run evs = foldl step \<lparr>all_rooms = Map.empty, conns = Map.empty\<rparr> evs"

text \<open>The polling API run on a list of requests, from the empty map.\<close>

definition api_run :: "(env \<times> request) list \<Rightarrow> (jsval \<rightharpoonup> api_room)" where
  "api_run reqs = foldl (\<lambda>rs (e, req). snd (serve e req rs)) Map.empty reqs"

text \<open>
  Ann connects as \<^verbatim>\<open>a\<close> and joins \<^verbatim>\<open>ROOM42\<close>, Bob connects as \<^verbatim>\<open>b\<close> and joins it too; then
  Ann starts playback at the rate 2.
\<close>

definition ex_events :: "event list" where
  "ex_events =
     [Connects ''a'', Delivers ex_env ''a'' (Room_join (JStr ''ROOM42'') (JStr ''Ann'')),
      Connects ''b'', Delivers ex_env ''b'' (Room_join (JStr ''ROOM42'') (JStr ''Bob'')),
      Delivers ex_env ''a'' (Play (JNum (Fin 10)) (JNum (Fin 2)) (JNum (Fin 500)))]"

definition ex_requests :: "(env \<times> request) list" where
  "ex_requests =
     [(ex_env, Post_join (JStr ''ROOM42'') (JStr ''Ann'') (JStr ''a'')),
      (ex_env, Post_join (JStr ''ROOM42'') (JStr ''Bob'') (JStr ''b''))]"

section \<open>Properties\<close>

subsection \<open>The client's seek target\<close>

text \<open>
  C1, as the code has it. For a playing snapshot the client's target is
  \<^verbatim>\<open>at + (now - ts)/1000\<close>: the seconds since \<^verbatim>\<open>ts\<close> are added as they are, the rate does
  not enter. For a paused one it is \<^verbatim>\<open>at\<close>. Every seek that \<^verbatim>\<open>applyPlayback\<close> issues, and
  every seek that the \<^verbatim>\<open>sync:state\<close> handler issues for a playing snapshot, goes to that
  position.
\<close>

theorem target_latency_compensation:
  "(status pb = Playing \<longrightarrow>
      target now pb = js_add (at_sec pb) (js_div_1000 (js_sub (Fin now) (ts pb)))) \<and>
   (status pb = Playing \<and> at_sec pb = Fin a \<and> ts pb = Fin t \<longrightarrow>
      target now pb = Fin (a + (now - t) / 1000)) \<and>
   (status pb = Paused \<longrightarrow> target now pb = at_sec pb) \<and>
   (SeekTo x \<in> set (applyPlayback now (Some cur) (Some pb)) \<longrightarrow> x = target now pb) \<and>
   (status pb = Playing \<and> on_sync_state now False (Some cur) False pb = Commands cs \<and>
    SeekTo x \<in> set cs \<longrightarrow>
      x = js_add (at_sec pb) (js_div_1000 (js_sub (Fin now) (ts pb))))"
  by (auto simp: target_def applyPlayback_def on_sync_state_def Let_def split: if_splits)

theorem target_latency_compensation_witness:
  "target 2500 (playback ex_room) = Fin 12 \<and>
   target 2500 (playback ex_room\<lparr>status := Paused\<rparr>) = Fin 10 \<and>
   applyPlayback 2500 (Some (Fin 3)) (Some (playback ex_room))
     = [SetRate (Fin 2), SeekTo (Fin 12), DoPlay] \<and>
   on_sync_state 2500 False (Some (Fin 3)) False (playback ex_room)
     = Commands [SeekTo (Fin 12), DoPlay, SetRate (Fin 2)]"
  using target_latency_compensation
          [where pb = "playback ex_room" and now = 2500 and a = 10 and t = 500]
        target_latency_compensation
          [where pb = "playback ex_room\<lparr>status := Paused\<rparr>" and now = 2500]
  by (simp add: ex_room_def applyPlayback_def on_sync_state_def num_or_def num_truthy_def)

text \<open>
  C1, as the claim has it, fails: at the rate 2, one second after \<^verbatim>\<open>ts\<close>, the client
  seeks to \<^verbatim>\<open>at + 1\<close>, not to \<^verbatim>\<open>at + 1 * 2\<close>.
\<close>

theorem target_not_scaled_counterexample:
  "applyPlayback 1000 (Some (Fin 0))
      (Some \<lparr>status = Playing, at_sec = Fin 10, rate = Fin 2, ts = Fin 0\<rparr>)
     = [SetRate (Fin 2), SeekTo (Fin 11), DoPlay] \<and>
   target 1000 \<lparr>status = Playing, at_sec = Fin 10, rate = Fin 2, ts = Fin 0\<rparr>
     \<noteq> js_add (Fin 10) (js_mul (js_div_1000 (js_sub (Fin 1000) (Fin 0))) (Fin 2))"
  by (simp add: applyPlayback_def target_def num_or_def num_truthy_def)

subsection \<open>Host-only commands\<close>

lemma host_room_other:
  "rooms st k = Some room \<Longrightarrow> hostId room \<noteq> JStr sid \<Longrightarrow> host_room sid st = Some r \<Longrightarrow>
   joinedRoomId st \<noteq> k"
  by (auto simp: host_room_def split: if_splits option.splits)

lemma host_room_none:
  "rooms st (joinedRoomId st) = Some room \<Longrightarrow> hostId room \<noteq> JStr sid \<Longrightarrow> host_room sid st = None"
  by (auto simp: host_room_def split: if_splits option.splits)

text \<open>
  C2. In the polling API a caller whose \<^verbatim>\<open>userId\<close> is not the \<^verbatim>\<open>hostId\<close> of the room gets
  the status 403 from the source and from the playback endpoint, whatever the action, and
  the map of rooms stays as it was. In the relay a room whose \<^verbatim>\<open>hostId\<close> is not the socket's
  id is left as it was by each of the five player handlers of that socket; when it is the
  room the socket has joined, the message is dropped: the state is as before and nothing
  is sent.
\<close>

theorem non_host_changes_nothing:
  "(rs (JStr roomId) = Some aroom \<and> hostId aroom \<noteq> uid \<longrightarrow>
      api_source now roomId uid src rs = (Reply_error 403 ''Only host can set source'', rs) \<and>
      api_playback now roomId uid action a r t rs =
        (Reply_error 403 ''Only host can control playback'', rs)) \<and>
   (rooms st k = Some room \<and> hostId room \<noteq> JStr sid \<longrightarrow>
      rooms (player_set_source now sid payload st) k = Some room \<and>
      rooms (player_play s2n now sid av rv tv st) k = Some room \<and>
      rooms (player_pause s2n now sid av tv st) k = Some room \<and>
      rooms (player_seek s2n now sid av tv st) k = Some room \<and>
      rooms (player_rate s2n now sid rv tv st) k = Some room) \<and>
   (rooms st (joinedRoomId st) = Some room \<and> hostId room \<noteq> JStr sid \<longrightarrow>
      player_set_source now sid payload st = st \<and>
      player_play s2n now sid av rv tv st = st \<and>
      player_pause s2n now sid av tv st = st \<and>
      player_seek s2n now sid av tv st = st \<and>
      player_rate s2n now sid rv tv st = st)"
proof (intro conjI impI)
  assume h: "rs (JStr roomId) = Some aroom \<and> hostId aroom \<noteq> uid"
  then show "api_source now roomId uid src rs = (Reply_error 403 ''Only host can set source'', rs)"
    by (simp add: api_source_def strict_neq_def)
  from h show "api_playback now roomId uid action a r t rs =
        (Reply_error 403 ''Only host can control playback'', rs)"
    by (simp add: api_playback_def strict_neq_def)
next
  assume h: "rooms st k = Some room \<and> hostId room \<noteq> JStr sid"
  then have other: "\<And>r. host_room sid st = Some r \<Longrightarrow> joinedRoomId st \<noteq> k"
    using host_room_other by blast
  from h other show "rooms (player_set_source now sid payload st) k = Some room"
    by (auto simp: player_set_source_def Let_def split: option.splits)
  from h other show "rooms (player_play s2n now sid av rv tv st) k = Some room"
    by (auto simp: player_play_def Let_def split: option.splits)
  from h other show "rooms (player_pause s2n now sid av tv st) k = Some room"
    by (auto simp: player_pause_def Let_def split: option.splits)
  from h other show "rooms (player_seek s2n now sid av tv st) k = Some room"
    by (auto simp: player_seek_def Let_def split: option.splits)
  from h other show "rooms (player_rate s2n now sid rv tv st) k = Some room"
    by (auto simp: player_rate_def Let_def split: option.splits)
next
  assume h: "rooms st (joinedRoomId st) = Some room \<and> hostId room \<noteq> JStr sid"
  then have none: "host_room sid st = None"
    using host_room_none by blast
  from none show "player_set_source now sid payload st = st"
    by (simp add: player_set_source_def)
  from none show "player_play s2n now sid av rv tv st = st"
    by (simp add: player_play_def)
  from none show "player_pause s2n now sid av tv st = st"
    by (simp add: player_pause_def)
  from none show "player_seek s2n now sid av tv st = st"
    by (simp add: player_seek_def)
  from none show "player_rate s2n now sid rv tv st = st"
    by (simp add: player_rate_def)
qed

theorem non_host_changes_nothing_witness:
  "api_source 7 ''ROOM42'' (JStr ''b'') None ex_api_rooms
     = (Reply_error 403 ''Only host can set source'', ex_api_rooms) \<and>
   api_playback 7 ''ROOM42'' (JStr ''b'') (JStr ''seek'') JUndefined JUndefined (JNum (Fin 99))
       ex_api_rooms
     = (Reply_error 403 ''Only host can control playback'', ex_api_rooms) \<and>
   player_set_source 7 ''b''
       (Some \<lparr>type = JStr ''youtube'', url = JStr ''u'', videoId = JStr ''v''\<rparr>) ex_relay = ex_relay \<and>
   player_play (\<lambda>s. NaN) 7 ''b'' (JNum (Fin 99)) (JNum (Fin 3)) JUndefined ex_relay = ex_relay \<and>
   player_pause (\<lambda>s. NaN) 7 ''b'' (JNum (Fin 99)) JUndefined ex_relay = ex_relay \<and>
   player_seek (\<lambda>s. NaN) 7 ''b'' (JNum (Fin 99)) JUndefined ex_relay = ex_relay \<and>
   player_rate (\<lambda>s. NaN) 7 ''b'' (JNum (Fin 3)) JUndefined ex_relay = ex_relay \<and>
   rooms (player_rate (\<lambda>s. NaN) 7 ''b'' (JNum (Fin 3)) JUndefined ex_relay) (JStr ''ROOM42'')
     = Some ex_room"
  using non_host_changes_nothing
          [where rs = ex_api_rooms and roomId = "''ROOM42''" and aroom = ex_api_room
             and uid = "JStr ''b''" and st = ex_relay and k = "JStr ''ROOM42''" and room = ex_room
             and sid = "''b''"]
  by (simp add: ex_api_rooms_def ex_api_room_def ex_relay_def ex_room_def)

subsection \<open>Playback commands\<close>

text \<open>
  C8, as the code has it. A playback command of the host replaces the snapshot. In the
  polling API the new snapshot is stamped with the server's \<^verbatim>\<open>Date.now()\<close>; in the relay it
  is stamped with the \<^verbatim>\<open>ts\<close> of the message when that is a number other than 0, and with
  the server's \<^verbatim>\<open>Date.now()\<close> otherwise. In both, pause keeps the rate and seek keeps the
  status and the rate; source, host and participants are as before.
\<close>

theorem playback_commands_frame:
  "(rs (JStr roomId) = Some aroom \<and> \<not> strict_neq (hostId aroom) uid \<and>
    action \<in> {JStr ''play'', JStr ''pause'', JStr ''seek'', JStr ''rate''} \<longrightarrow>
      (\<exists>r'. snd (api_playback now roomId uid action a r t rs) (JStr roomId) = Some r' \<and>
         ts (playback r') = Fin now \<and>
         (action = JStr ''pause'' \<longrightarrow>
            status (playback r') = Paused \<and> at_sec (playback r') = a \<and>
            rate (playback r') = rate (playback aroom)) \<and>
         (action = JStr ''seek'' \<longrightarrow>
            status (playback r') = status (playback aroom) \<and> at_sec (playback r') = t \<and>
            rate (playback r') = rate (playback aroom)) \<and>
         source r' = source aroom \<and> hostId r' = hostId aroom \<and>
         participants r' = participants aroom \<and> messages r' = messages aroom)) \<and>
   (host_room sid st = Some room \<longrightarrow>
      (\<exists>r'. rooms (player_play s2n now sid av rv tv st) (joinedRoomId st) = Some r' \<and>
         ts (playback r') = num_or (js_Number s2n tv) (Fin now)) \<and>
      (\<exists>r'. rooms (player_rate s2n now sid rv tv st) (joinedRoomId st) = Some r' \<and>
         ts (playback r') = num_or (js_Number s2n tv) (Fin now) \<and>
         status (playback r') = status (playback room) \<and>
         at_sec (playback r') = at_sec (playback room)) \<and>
      (\<exists>r'. rooms (player_pause s2n now sid av tv st) (joinedRoomId st) = Some r' \<and>
         ts (playback r') = num_or (js_Number s2n tv) (Fin now) \<and>
         status (playback r') = Paused \<and>
         at_sec (playback r') = num_or (js_Number s2n av) (Fin 0) \<and>
         rate (playback r') = rate (playback room) \<and>
         source r' = source room \<and> hostId r' = hostId room \<and>
         participants r' = participants room) \<and>
      (\<exists>r'. rooms (player_seek s2n now sid av tv st) (joinedRoomId st) = Some r' \<and>
         ts (playback r') = num_or (js_Number s2n tv) (Fin now) \<and>
         status (playback r') = status (playback room) \<and>
         at_sec (playback r') = num_or (js_Number s2n av) (Fin 0) \<and>
         rate (playback r') = rate (playback room) \<and>
         source r' = source room \<and> hostId r' = hostId room \<and>
         participants r' = participants room)) \<and>
   (num_truthy (js_Number s2n tv) \<longrightarrow> num_or (js_Number s2n tv) (Fin now) = js_Number s2n tv) \<and>
   (\<not> num_truthy (js_Number s2n tv) \<longrightarrow> num_or (js_Number s2n tv) (Fin now) = Fin now)"
proof (intro conjI impI)
  assume "rs (JStr roomId) = Some aroom \<and> \<not> strict_neq (hostId aroom) uid \<and>
    action \<in> {JStr ''play'', JStr ''pause'', JStr ''seek'', JStr ''rate''}"
  then show "\<exists>r'. snd (api_playback now roomId uid action a r t rs) (JStr roomId) = Some r' \<and>
         ts (playback r') = Fin now \<and>
         (action = JStr ''pause'' \<longrightarrow>
            status (playback r') = Paused \<and> at_sec (playback r') = a \<and>
            rate (playback r') = rate (playback aroom)) \<and>
         (action = JStr ''seek'' \<longrightarrow>
            status (playback r') = status (playback aroom) \<and> at_sec (playback r') = t \<and>
            rate (playback r') = rate (playback aroom)) \<and>
         source r' = source aroom \<and> hostId r' = hostId aroom \<and>
         participants r' = participants aroom \<and> messages r' = messages aroom"
    by (auto simp: api_playback_def)
next
  assume h: "host_room sid st = Some room"
  show "\<exists>r'. rooms (player_play s2n now sid av rv tv st) (joinedRoomId st) = Some r' \<and>
         ts (playback r') = num_or (js_Number s2n tv) (Fin now)"
    using h by (simp add: player_play_def Let_def)
  show "\<exists>r'. rooms (player_rate s2n now sid rv tv st) (joinedRoomId st) = Some r' \<and>
         ts (playback r') = num_or (js_Number s2n tv) (Fin now) \<and>
         status (playback r') = status (playback room) \<and>
         at_sec (playback r') = at_sec (playback room)"
    using h by (simp add: player_rate_def Let_def)
  show "\<exists>r'. rooms (player_pause s2n now sid av tv st) (joinedRoomId st) = Some r' \<and>
         ts (playback r') = num_or (js_Number s2n tv) (Fin now) \<and>
         status (playback r') = Paused \<and>
         at_sec (playback r') = num_or (js_Number s2n av) (Fin 0) \<and>
         rate (playback r') = rate (playback room) \<and>
         source r' = source room \<and> hostId r' = hostId room \<and>
         participants r' = participants room"
    using h by (simp add: player_pause_def Let_def)
  show "\<exists>r'. rooms (player_seek s2n now sid av tv st) (joinedRoomId st) = Some r' \<and>
         ts (playback r') = num_or (js_Number s2n tv) (Fin now) \<and>
         status (playback r') = status (playback room) \<and>
         at_sec (playback r') = num_or (js_Number s2n av) (Fin 0) \<and>
         rate (playback r') = rate (playback room) \<and>
         source r' = source room \<and> hostId r' = hostId room \<and>
         participants r' = participants room"
    using h by (simp add: player_seek_def Let_def)
qed (simp_all add: num_or_def)

theorem playback_commands_frame_witness:
  "map_option playback
     (snd (api_playback 9000 ''ROOM42'' (JStr ''a'') (JStr ''pause'') (JNum (Fin 33)) JUndefined
             JUndefined ex_api_rooms) (JStr ''ROOM42''))
     = Some \<lparr>status = Paused, at_sec = JNum (Fin 33), rate = JNum (Fin 2), ts = Fin 9000\<rparr> \<and>
   map_option playback
     (snd (api_playback 9000 ''ROOM42'' (JStr ''a'') (JStr ''seek'') JUndefined JUndefined
             (JNum (Fin 77)) ex_api_rooms) (JStr ''ROOM42''))
     = Some \<lparr>status = Playing, at_sec = JNum (Fin 77), rate = JNum (Fin 2), ts = Fin 9000\<rparr> \<and>
   host_room ''a'' ex_relay = Some ex_room \<and>
   map_option playback
     (rooms (player_pause (\<lambda>s. NaN) 9000 ''a'' (JNum (Fin 33)) JUndefined ex_relay) (JStr ''ROOM42''))
     = Some \<lparr>status = Paused, at_sec = Fin 33, rate = Fin 2, ts = Fin 9000\<rparr> \<and>
   map_option playback
     (rooms (player_seek (\<lambda>s. NaN) 9000 ''a'' (JNum (Fin 77)) (JNum (Fin 8500)) ex_relay)
        (JStr ''ROOM42''))
     = Some \<lparr>status = Playing, at_sec = Fin 77, rate = Fin 2, ts = Fin 8500\<rparr>"
  using playback_commands_frame
          [where rs = ex_api_rooms and roomId = "''ROOM42''" and aroom = ex_api_room
             and uid = "JStr ''a''" and action = "JStr ''pause''" and sid = "''a''"
             and st = ex_relay and room = ex_room and s2n = "\<lambda>s. NaN" and tv = "JNum (Fin 8500)"]
  by (simp add: ex_api_rooms_def ex_api_room_def ex_relay_def ex_room_def host_room_def
        api_playback_def strict_neq_def player_pause_def player_seek_def num_or_def
        num_truthy_def)

text \<open>
  C8, as the claim has it, fails in the relay: the host \<^verbatim>\<open>a\<close> pauses with \<^verbatim>\<open>ts: 8500\<close>
  while the server's clock reads 9000, and the snapshot is stamped 8500.
\<close>

theorem relay_stamp_counterexample:
  "host_room ''a'' ex_relay = Some ex_room \<and>
   map_option (\<lambda>r. ts (playback r))
     (rooms (player_pause (\<lambda>s. NaN) 9000 ''a'' (JNum (Fin 33)) (JNum (Fin 8500)) ex_relay)
        (JStr ''ROOM42''))
     = Some (Fin 8500) \<and>
   Fin 8500 \<noteq> Fin 9000"
  by (simp add: ex_relay_def ex_room_def host_room_def player_pause_def num_or_def num_truthy_def)

subsection \<open>Chat\<close>

lemma serve_keeps_cap:
  assumes "\<forall>k room. rs k = Some room \<longrightarrow> length (messages room) \<le> 100"
  shows "\<forall>k room. snd (serve e req rs) k = Some room \<longrightarrow> length (messages room) \<le> 100"
proof (cases req)
  case (Post_join roomId nm uid)
  with assms show ?thesis
    by (auto simp: api_join_def api_getOrCreateRoom_def Let_def split: option.splits if_splits)
next
  case (Post_source roomId uid src)
  with assms show ?thesis
    by (auto simp: api_source_def split: option.splits if_splits)
next
  case (Post_playback roomId uid action a r t)
  with assms show ?thesis
    by (auto simp: api_playback_def split: option.splits if_splits)
next
  case (Post_chat roomId uid text_v nm)
  with assms show ?thesis
    by (auto simp: api_chat_def Let_def slice_last_def split: option.splits if_splits)
qed

lemma api_reachable_cap:
  "api_reachable rs \<Longrightarrow> \<forall>k room. rs k = Some room \<longrightarrow> length (messages room) \<le> 100"
proof (induction rule: api_reachable.induct)
  case api_start
  show ?case by simp
next
  case (api_step rs e req)
  then show ?case using serve_keeps_cap by blast
qed

text \<open>
  C7. A chat text that is a string of more than 1000 characters is stored, in the polling
  API, and broadcast, in the relay, as its first 1000 characters. The polling API appends
  the message and, once the history is longer than 100, keeps its last 50 entries: in every
  state the API can reach no room holds more than 100 messages. (The relay stores no
  history.)
\<close>

theorem chat_truncated_and_capped:
  "(rs (JStr roomId) = Some aroom \<and> length s > 1000 \<longrightarrow>
      (\<exists>r' m. snd (api_chat n2s now roomId uid (JStr s) nm rs) (JStr roomId) = Some r' \<and>
         msg_text m = take 1000 s \<and> length (msg_text m) = 1000 \<and>
         messages r' = (if length (messages aroom) + 1 > 100
                        then slice_last 50 (messages aroom @ [m]) else messages aroom @ [m]) \<and>
         last (messages r') = m)) \<and>
   (truthy (joinedRoomId st) \<and> length s > 1000 \<longrightarrow>
      emitted (chat_message n2s now sid (JStr s) nm st) =
        emitted st @ [(To_room (joinedRoomId st),
                       Chat_message (take 1000 s) (val_or nm (JStr ''Anon'')) now sid)] \<and>
      length (take 1000 s) = 1000) \<and>
   (api_reachable rs \<and> rs k = Some aroom \<longrightarrow> length (messages aroom) \<le> 100) \<and>
   (rs (JStr roomId) = Some aroom \<and> length (messages aroom) = 100 \<longrightarrow>
      (\<exists>r'. snd (api_chat n2s now roomId uid text_v nm rs) (JStr roomId) = Some r' \<and>
         length (messages r') = 50 \<and>
         butlast (messages r') = drop 51 (messages aroom)))"
proof (intro conjI impI)
  assume h: "rs (JStr roomId) = Some aroom \<and> length s > 1000"
  define m where "m = \<lparr>msg_id = n2s (Fin now), msg_text = slice_0 1000 (js_String n2s (JStr s)),
             msg_name = val_or nm (JStr ''Anon''), userId = uid, timestamp = now\<rparr>"
  define kept where "kept = (if length (messages aroom) + 1 > 100
                        then slice_last 50 (messages aroom @ [m]) else messages aroom @ [m])"
  from h have stored: "snd (api_chat n2s now roomId uid (JStr s) nm rs) (JStr roomId)
      = Some (aroom\<lparr>messages := kept\<rparr>)"
    by (simp add: api_chat_def Let_def m_def kept_def)
  from h have cut: "msg_text m = take 1000 s \<and> length (msg_text m) = 1000"
    by (simp add: slice_0_def m_def)
  have newest: "last kept = m"
    by (simp add: slice_last_def kept_def)
  show "\<exists>r' m. snd (api_chat n2s now roomId uid (JStr s) nm rs) (JStr roomId) = Some r' \<and>
         msg_text m = take 1000 s \<and> length (msg_text m) = 1000 \<and>
         messages r' = (if length (messages aroom) + 1 > 100
                        then slice_last 50 (messages aroom @ [m]) else messages aroom @ [m]) \<and>
         last (messages r') = m"
  proof (intro exI conjI)
    show "snd (api_chat n2s now roomId uid (JStr s) nm rs) (JStr roomId)
            = Some (aroom\<lparr>messages := kept\<rparr>)"
      by (rule stored)
    show "msg_text m = take 1000 s" using cut by blast
    show "length (msg_text m) = 1000" using cut by blast
    show "messages (aroom\<lparr>messages := kept\<rparr>) = (if length (messages aroom) + 1 > 100
                        then slice_last 50 (messages aroom @ [m]) else messages aroom @ [m])"
      by (simp add: kept_def)
    show "last (messages (aroom\<lparr>messages := kept\<rparr>)) = m"
      using newest by simp
  qed
next
  assume h: "truthy (joinedRoomId st) \<and> length s > 1000"
  then have "s \<noteq> []" by auto
  with h show "emitted (chat_message n2s now sid (JStr s) nm st) =
        emitted st @ [(To_room (joinedRoomId st),
                       Chat_message (take 1000 s) (val_or nm (JStr ''Anon'')) now sid)]"
    by (simp add: chat_message_def Let_def slice_0_def)
  from h show "length (take 1000 s) = 1000" by simp
next
  assume "api_reachable rs \<and> rs k = Some aroom"
  then show "length (messages aroom) \<le> 100"
    using api_reachable_cap by blast
next
  assume h: "rs (JStr roomId) = Some aroom \<and> length (messages aroom) = 100"
  then show "\<exists>r'. snd (api_chat n2s now roomId uid text_v nm rs) (JStr roomId) = Some r' \<and>
         length (messages r') = 50 \<and>
         butlast (messages r') = drop 51 (messages aroom)"
    by (simp add: api_chat_def Let_def slice_last_def butlast_append)
qed

theorem chat_truncated_and_capped_witness:
  "map_option (\<lambda>r. map msg_text (messages r))
     (snd (api_chat (\<lambda>n. ''9000'') 9000 ''ROOM42'' (JStr ''b'') (JStr (replicate 1001 CHR ''x''))
             JUndefined ex_api_rooms) (JStr ''ROOM42''))
     = Some [replicate 1000 CHR ''x''] \<and>
   emitted (chat_message (\<lambda>n. ''9000'') 9000 ''b'' (JStr (replicate 1001 CHR ''x'')) JUndefined
              ex_relay)
     = [(To_room (JStr ''ROOM42''),
         Chat_message (replicate 1000 CHR ''x'') (JStr ''Anon'') 9000 ''b'')] \<and>
   api_reachable ex_api_joined \<and>
   (\<exists>room. ex_api_joined (JStr ''ROOM42'') = Some room \<and> length (messages room) \<le> 100) \<and>
   map_option (\<lambda>r. length (messages r))
     (snd (api_chat (\<lambda>n. ''9000'') 9000 ''ROOM42'' (JStr ''b'') (JStr ''one more'') JUndefined
             ex_full_rooms) (JStr ''ROOM42''))
     = Some 50"
proof -
  have reach: "api_reachable ex_api_joined"
    unfolding ex_api_joined_def by (rule api_step [OF api_start])
  have joined: "ex_api_joined (JStr ''ROOM42'') =
      Some \<lparr>room_id = JStr ''ROOM42'', hostId = JStr ''a'',
            participants = [(JStr ''a'', \<lparr>pid = JStr ''a'', name = JStr ''Ann'', lastSeen = 9000\<rparr>)],
            source = None,
            playback = \<lparr>status = Paused, at_sec = JNum (Fin 0), rate = JNum (Fin 1), ts = Fin 9000\<rparr>,
            messages = []\<rparr>"
    by (simp add: ex_api_joined_def ex_env_def api_join_def api_getOrCreateRoom_def val_or_def Let_def)
  note inst = chat_truncated_and_capped
            [where rs = ex_api_rooms and roomId = "''ROOM42''" and aroom = ex_api_room
               and s = "replicate 1001 CHR ''x''" and n2s = "\<lambda>n. ''9000''" and now = 9000
               and uid = "JStr ''b''" and nm = JUndefined and st = ex_relay and sid = "''b''"
               and k = "JStr ''ROOM42''" and text_v = "JStr ''one more''"]
  have a: "map_option (\<lambda>r. map msg_text (messages r))
     (snd (api_chat (\<lambda>n. ''9000'') 9000 ''ROOM42'' (JStr ''b'') (JStr (replicate 1001 CHR ''x''))
             JUndefined ex_api_rooms) (JStr ''ROOM42''))
     = Some [replicate 1000 CHR ''x'']"
    using inst
    by (simp add: ex_api_rooms_def ex_api_room_def api_chat_def Let_def slice_0_def)
  have b: "emitted (chat_message (\<lambda>n. ''9000'') 9000 ''b'' (JStr (replicate 1001 CHR ''x'')) JUndefined
              ex_relay)
     = [(To_room (JStr ''ROOM42''),
         Chat_message (replicate 1000 CHR ''x'') (JStr ''Anon'') 9000 ''b'')]"
    using inst
    by (simp add: ex_relay_def val_or_def chat_message_def Let_def slice_0_def)
  have c: "\<exists>room. ex_api_joined (JStr ''ROOM42'') = Some room \<and> length (messages room) \<le> 100"
    using chat_truncated_and_capped [where rs = ex_api_joined and k = "JStr ''ROOM42''"] reach joined
    by blast
  have d: "map_option (\<lambda>r. length (messages r))
     (snd (api_chat (\<lambda>n. ''9000'') 9000 ''ROOM42'' (JStr ''b'') (JStr ''one more'') JUndefined
             ex_full_rooms) (JStr ''ROOM42''))
     = Some 50"
    by (simp add: ex_full_rooms_def api_chat_def Let_def slice_last_def)
  from a b reach c d show ?thesis by blast
qed

subsection \<open>Room ids\<close>


lemma pick_nonempty: "pick r \<noteq> []"
  by (simp add: pick_def Let_def)



lemma makeRoomId_loop_concat:
  "i \<le> 6 \<Longrightarrow> makeRoomId_loop rnd i ident = ident @ concat (map (\<lambda>j. pick (rnd j)) [i..<6])"
proof (induction rnd i ident rule: makeRoomId_loop.induct)
  case (1 rnd i ident)
  show ?case
  proof (cases "i < 6")
    case True
    then have "makeRoomId_loop rnd i ident = makeRoomId_loop rnd (i + 1) (ident @ pick (rnd i))"
      by (simp add: makeRoomId_loop.simps [of rnd i])
    also have "\<dots> = (ident @ pick (rnd i)) @ concat (map (\<lambda>j. pick (rnd j)) [i + 1..<6])"
      using "1.IH" True by simp
    also have "\<dots> = ident @ concat (map (\<lambda>j. pick (rnd j)) [i..<6])"
      using True by (simp add: upt_conv_Cons)
    finally show ?thesis .
  next
    case False
    with "1.prems" have "i = 6" by simp
    then show ?thesis by (simp add: makeRoomId_loop.simps [of rnd 6])
  qed
qed

lemma makeRoomId_concat: "makeRoomId rnd = concat (map (\<lambda>j. pick (rnd j)) [0..<6])"
  by (simp add: makeRoomId_def makeRoomId_loop_concat)

lemma makeRoomId_nonempty: "makeRoomId rnd \<noteq> []"
proof -
  have "[0..<6] = 0 # [1..<6]" by (simp add: upt_conv_Cons)
  then show ?thesis by (simp add: makeRoomId_concat pick_nonempty)
qed





subsection \<open>Maps in insertion order\<close>

lemma map_keys_map_set:
  "map_keys (map_set k v m) = (if k \<in> set (map_keys m) then map_keys m else map_keys m @ [k])"
  by (induction m) (force simp: map_keys_def)+

lemma keys_map_set: "set (map_keys (map_set k v m)) = insert k (set (map_keys m))"
  by (auto simp: map_keys_map_set)

lemma keys_map_delete: "set (map_keys (map_delete k m)) = set (map_keys m) - {k}"
  by (auto simp: map_keys_def map_delete_def)

lemma keys_next_member: "keys_next m = Some k \<Longrightarrow> k \<in> set (map_keys m)"
  by (cases m) (auto simp: map_keys_def)

lemma keys_next_none: "(keys_next m = None) = (m = [])"
  by (cases m) auto

lemma map_keys_map_set_twice:
  "map_keys (map_set k v (map_set k w m)) = map_keys (map_set k w m)"
  by (simp add: map_keys_map_set)

subsection \<open>The invariant of the relay\<close>

lemma hub_inv_update:
  assumes inv: "hub_inv h"
    and ok: "room_ok j room'"
    and others: "\<forall>room s. all_rooms h j = Some room \<longrightarrow> s \<noteq> sid \<longrightarrow> member s room \<longrightarrow> member s room'"
    and self: "\<forall>j'. c = Some j' \<longrightarrow> truthy j' \<longrightarrow>
                 (\<exists>r. ((all_rooms h)(j \<mapsto> room')) j' = Some r \<and> member sid r)"
  shows "hub_inv \<lparr>all_rooms = (all_rooms h)(j \<mapsto> room'), conns = (conns h)(sid := c)\<rparr>"
  unfolding hub_inv_def
proof (intro conjI allI impI)
  fix k room
  assume "all_rooms \<lparr>all_rooms = (all_rooms h)(j \<mapsto> room'), conns = (conns h)(sid := c)\<rparr> k = Some room"
  then show "room_ok k room"
    using inv ok by (auto simp: hub_inv_def split: if_splits)
next
  fix s j'
  assume c: "conns \<lparr>all_rooms = (all_rooms h)(j \<mapsto> room'), conns = (conns h)(sid := c)\<rparr> s = Some j'"
    and t: "truthy j'"
  show "\<exists>room. all_rooms \<lparr>all_rooms = (all_rooms h)(j \<mapsto> room'), conns = (conns h)(sid := c)\<rparr> j' = Some room
          \<and> member s room"
  proof (cases "s = sid")
    case True
    with c t self show ?thesis by simp
  next
    case False
    with c have "conns h s = Some j'" by simp
    moreover from inv have "\<forall>sid j. conns h sid = Some j \<longrightarrow> truthy j \<longrightarrow>
         (\<exists>room. all_rooms h j = Some room \<and> member sid room)"
      by (simp add: hub_inv_def)
    ultimately obtain r where r: "all_rooms h j' = Some r" "member s r"
      using t by blast
    show ?thesis
    proof (cases "j' = j")
      case True
      with r others False show ?thesis by simp
    next
      case False
      with r show ?thesis by simp
    qed
  qed
qed

lemma hub_inv_conns:
  assumes inv: "hub_inv h"
    and self: "\<forall>j'. c = Some j' \<longrightarrow> truthy j' \<longrightarrow> (\<exists>r. all_rooms h j' = Some r \<and> member sid r)"
  shows "hub_inv \<lparr>all_rooms = all_rooms h, conns = (conns h)(sid := c)\<rparr>"
  using assms by (auto simp: hub_inv_def)

lemma num_or_rate_truthy: "num_truthy (num_or x (Fin 1))"
  by (simp add: num_or_def num_truthy_def)

lemma num_or_at_number: "num_or x (Fin 0) \<noteq> NaN"
  by (auto simp: num_or_def num_truthy_def)

lemma hub_inv_unchanged:
  assumes "hub_inv h" and "conns h sid = Some j"
  shows "hub_inv \<lparr>all_rooms = all_rooms h, conns = (conns h)(sid \<mapsto> j)\<rparr>"
proof -
  from assms(2) have "(conns h)(sid \<mapsto> j) = conns h" by auto
  with assms(1) show ?thesis by (simp add: hub_inv_def)
qed

lemma hub_inv_member:
  assumes "hub_inv h" and "conns h sid = Some j" and "truthy j"
  shows "\<exists>room. all_rooms h j = Some room \<and> member sid room"
  using assms unfolding hub_inv_def by blast

lemma hub_inv_room_ok: "hub_inv h \<Longrightarrow> all_rooms h k = Some room \<Longrightarrow> room_ok k room"
  unfolding hub_inv_def by blast

lemma hub_inv_same_people:
  assumes inv: "hub_inv h" and c: "conns h sid = Some j" and r: "all_rooms h j = Some room"
    and same: "room_id room' = room_id room" "hostId room' = hostId room"
              "participants room' = participants room"
    and pb: "num_truthy (rate (playback room'))" "at_sec (playback room') \<noteq> NaN"
  shows "hub_inv \<lparr>all_rooms = (all_rooms h)(j \<mapsto> room'), conns = (conns h)(sid \<mapsto> j)\<rparr>"
proof (rule hub_inv_update [OF inv])
  from inv r have "room_ok j room" by (rule hub_inv_room_ok)
  with same pb show "room_ok j room'"
    by (simp add: room_ok_def host_is_participant_def)
  from r same show "\<forall>room s. all_rooms h j = Some room \<longrightarrow> s \<noteq> sid \<longrightarrow> member s room \<longrightarrow> member s room'"
    by (simp add: member_def)
  show "\<forall>j'. Some j = Some j' \<longrightarrow> truthy j' \<longrightarrow>
          (\<exists>r. ((all_rooms h)(j \<mapsto> room')) j' = Some r \<and> member sid r)"
  proof (intro allI impI)
    fix j' assume "Some j = Some j'" and "truthy j'"
    then have "truthy j" and "j' = j" by simp_all
    with hub_inv_member [OF inv c] r same show
      "\<exists>r. ((all_rooms h)(j \<mapsto> room')) j' = Some r \<and> member sid r"
      by (simp add: member_def)
  qed
qed

lemma host_room_view:
  "host_room sid (view h j) = Some room \<Longrightarrow> all_rooms h j = Some room \<and> hostId room = JStr sid"
  by (auto simp: host_room_def view_def split: if_splits option.splits)

lemma player_set_source_inv:
  assumes inv: "hub_inv h" and c: "conns h sid = Some j"
  shows "hub_inv \<lparr>all_rooms = rooms (player_set_source now sid payload (view h j)),
                  conns = (conns h)(sid \<mapsto> joinedRoomId (player_set_source now sid payload (view h j)))\<rparr>"
proof (cases "host_room sid (view h j)")
  case None
  then have "player_set_source now sid payload (view h j) = view h j"
    by (simp add: player_set_source_def)
  with hub_inv_unchanged [OF inv c] show ?thesis by (simp add: view_def)
next
  case (Some room)
  then have r: "all_rooms h j = Some room" using host_room_view by blast
  show ?thesis
  proof (cases "\<exists>p. payload = Some p \<and> truthy (type p) \<and> truthy (url p)")
    case False
    with Some have "player_set_source now sid payload (view h j) = view h j"
      by (auto simp: player_set_source_def split: option.splits)
    with hub_inv_unchanged [OF inv c] show ?thesis by (simp add: view_def)
  next
    case True
    then obtain p where p: "payload = Some p" "truthy (type p)" "truthy (url p)" by blast
    define room' where "room' = room
           \<lparr>source := Some \<lparr>type = type p, url = url p, videoId = val_or (videoId p) JNull\<rparr>,
            playback := \<lparr>status = Paused, at_sec = Fin 0, rate = Fin 1, ts = Fin now\<rparr>\<rparr>"
    have "hub_inv \<lparr>all_rooms = (all_rooms h)(j \<mapsto> room'), conns = (conns h)(sid \<mapsto> j)\<rparr>"
      by (rule hub_inv_same_people [OF inv c r]) (simp_all add: room'_def num_truthy_def)
    moreover from Some p have "rooms (player_set_source now sid payload (view h j))
        = (all_rooms h)(j \<mapsto> room')"
      and "joinedRoomId (player_set_source now sid payload (view h j)) = j"
      by (simp_all add: player_set_source_def Let_def view_def room'_def)
    ultimately show ?thesis by simp
  qed
qed

lemma player_play_inv:
  assumes inv: "hub_inv h" and c: "conns h sid = Some j"
  shows "hub_inv \<lparr>all_rooms = rooms (player_play s2n now sid a r t (view h j)),
                  conns = (conns h)(sid \<mapsto> joinedRoomId (player_play s2n now sid a r t (view h j)))\<rparr>"
proof (cases "host_room sid (view h j)")
  case None
  then have "player_play s2n now sid a r t (view h j) = view h j"
    by (simp add: player_play_def)
  with hub_inv_unchanged [OF inv c] show ?thesis by (simp add: view_def)
next
  case (Some room)
  then have r: "all_rooms h j = Some room" using host_room_view by blast
  define room' where "room' = room\<lparr>playback :=
      \<lparr>status = Playing, at_sec = num_or (js_Number s2n a) (Fin 0),
       rate = num_or (js_Number s2n r) (Fin 1), ts = num_or (js_Number s2n t) (Fin now)\<rparr>\<rparr>"
  have "hub_inv \<lparr>all_rooms = (all_rooms h)(j \<mapsto> room'), conns = (conns h)(sid \<mapsto> j)\<rparr>"
    by (rule hub_inv_same_people [OF inv c r])
       (simp_all add: room'_def num_or_rate_truthy num_or_at_number)
  moreover from Some have "rooms (player_play s2n now sid a r t (view h j)) = (all_rooms h)(j \<mapsto> room')"
    and "joinedRoomId (player_play s2n now sid a r t (view h j)) = j"
    by (simp_all add: player_play_def Let_def view_def room'_def)
  ultimately show ?thesis by simp
qed

lemma player_pause_inv:
  assumes inv: "hub_inv h" and c: "conns h sid = Some j"
  shows "hub_inv \<lparr>all_rooms = rooms (player_pause s2n now sid a t (view h j)),
                  conns = (conns h)(sid \<mapsto> joinedRoomId (player_pause s2n now sid a t (view h j)))\<rparr>"
proof (cases "host_room sid (view h j)")
  case None
  then have "player_pause s2n now sid a t (view h j) = view h j"
    by (simp add: player_pause_def)
  with hub_inv_unchanged [OF inv c] show ?thesis by (simp add: view_def)
next
  case (Some room)
  then have r: "all_rooms h j = Some room" using host_room_view by blast
  from inv r have ok: "room_ok j room" by (rule hub_inv_room_ok)
  define room' where "room' = room\<lparr>playback := (playback room)
      \<lparr>status := Paused, at_sec := num_or (js_Number s2n a) (Fin 0),
       ts := num_or (js_Number s2n t) (Fin now)\<rparr>\<rparr>"
  have "hub_inv \<lparr>all_rooms = (all_rooms h)(j \<mapsto> room'), conns = (conns h)(sid \<mapsto> j)\<rparr>"
    using ok
    by (intro hub_inv_same_people [OF inv c r])
       (simp_all add: room'_def room_ok_def num_or_at_number)
  moreover from Some have "rooms (player_pause s2n now sid a t (view h j)) = (all_rooms h)(j \<mapsto> room')"
    and "joinedRoomId (player_pause s2n now sid a t (view h j)) = j"
    by (simp_all add: player_pause_def Let_def view_def room'_def)
  ultimately show ?thesis by simp
qed

lemma player_seek_inv:
  assumes inv: "hub_inv h" and c: "conns h sid = Some j"
  shows "hub_inv \<lparr>all_rooms = rooms (player_seek s2n now sid a t (view h j)),
                  conns = (conns h)(sid \<mapsto> joinedRoomId (player_seek s2n now sid a t (view h j)))\<rparr>"
proof (cases "host_room sid (view h j)")
  case None
  then have "player_seek s2n now sid a t (view h j) = view h j"
    by (simp add: player_seek_def)
  with hub_inv_unchanged [OF inv c] show ?thesis by (simp add: view_def)
next
  case (Some room)
  then have r: "all_rooms h j = Some room" using host_room_view by blast
  from inv r have ok: "room_ok j room" by (rule hub_inv_room_ok)
  define room' where "room' = room\<lparr>playback := (playback room)
      \<lparr>at_sec := num_or (js_Number s2n a) (Fin 0), ts := num_or (js_Number s2n t) (Fin now)\<rparr>\<rparr>"
  have "hub_inv \<lparr>all_rooms = (all_rooms h)(j \<mapsto> room'), conns = (conns h)(sid \<mapsto> j)\<rparr>"
    using ok
    by (intro hub_inv_same_people [OF inv c r])
       (simp_all add: room'_def room_ok_def num_or_at_number)
  moreover from Some have "rooms (player_seek s2n now sid a t (view h j)) = (all_rooms h)(j \<mapsto> room')"
    and "joinedRoomId (player_seek s2n now sid a t (view h j)) = j"
    by (simp_all add: player_seek_def Let_def view_def room'_def)
  ultimately show ?thesis by simp
qed

lemma player_rate_inv:
  assumes inv: "hub_inv h" and c: "conns h sid = Some j"
  shows "hub_inv \<lparr>all_rooms = rooms (player_rate s2n now sid r t (view h j)),
                  conns = (conns h)(sid \<mapsto> joinedRoomId (player_rate s2n now sid r t (view h j)))\<rparr>"
proof (cases "host_room sid (view h j)")
  case None
  then have "player_rate s2n now sid r t (view h j) = view h j"
    by (simp add: player_rate_def)
  with hub_inv_unchanged [OF inv c] show ?thesis by (simp add: view_def)
next
  case (Some room)
  then have r: "all_rooms h j = Some room" using host_room_view by blast
  from inv r have ok: "room_ok j room" by (rule hub_inv_room_ok)
  define room' where "room' = room\<lparr>playback := (playback room)
      \<lparr>rate := num_or (js_Number s2n r) (Fin 1), ts := num_or (js_Number s2n t) (Fin now)\<rparr>\<rparr>"
  have "hub_inv \<lparr>all_rooms = (all_rooms h)(j \<mapsto> room'), conns = (conns h)(sid \<mapsto> j)\<rparr>"
    using ok
    by (intro hub_inv_same_people [OF inv c r])
       (simp_all add: room'_def room_ok_def num_or_rate_truthy)
  moreover from Some have "rooms (player_rate s2n now sid r t (view h j)) = (all_rooms h)(j \<mapsto> room')"
    and "joinedRoomId (player_rate s2n now sid r t (view h j)) = j"
    by (simp_all add: player_rate_def Let_def view_def room'_def)
  ultimately show ?thesis by simp
qed

lemma sync_chat_inv:
  assumes inv: "hub_inv h" and c: "conns h sid = Some j"
  shows "hub_inv \<lparr>all_rooms = rooms (sync_request now sid (view h j)),
                  conns = (conns h)(sid \<mapsto> joinedRoomId (sync_request now sid (view h j)))\<rparr>"
    and "hub_inv \<lparr>all_rooms = rooms (chat_message n2s now sid tx nm (view h j)),
                  conns = (conns h)(sid \<mapsto> joinedRoomId (chat_message n2s now sid tx nm (view h j)))\<rparr>"
proof -
  have "rooms (sync_request now sid (view h j)) = all_rooms h"
    and "joinedRoomId (sync_request now sid (view h j)) = j"
    by (simp_all add: sync_request_def view_def split: option.splits)
  with hub_inv_unchanged [OF inv c]
  show "hub_inv \<lparr>all_rooms = rooms (sync_request now sid (view h j)),
                  conns = (conns h)(sid \<mapsto> joinedRoomId (sync_request now sid (view h j)))\<rparr>"
    by simp
  have "rooms (chat_message n2s now sid tx nm (view h j)) = all_rooms h"
    and "joinedRoomId (chat_message n2s now sid tx nm (view h j)) = j"
    by (simp_all add: chat_message_def view_def Let_def)
  with hub_inv_unchanged [OF inv c]
  show "hub_inv \<lparr>all_rooms = rooms (chat_message n2s now sid tx nm (view h j)),
                  conns = (conns h)(sid \<mapsto> joinedRoomId (chat_message n2s now sid tx nm (view h j)))\<rparr>"
    by simp
qed

lemma reassign_host_ok:
  assumes "room_ok j room"
  shows "room_ok j (reassign_host sid room)"
proof -
  let ?rest = "map_delete (JStr sid) (participants room)"
  have keys: "set (map_keys ?rest) = set (map_keys (participants room)) - {JStr sid}"
    by (rule keys_map_delete)
  show ?thesis
  proof (cases "hostId room = JStr sid")
    case True
    then have "reassign_host sid room =
        room\<lparr>participants := ?rest,
             hostId := (case keys_next ?rest of Some k \<Rightarrow> k | None \<Rightarrow> JNull)\<rparr>"
      by (simp add: reassign_host_def Let_def)
    moreover have "(case keys_next ?rest of Some k \<Rightarrow> k | None \<Rightarrow> JNull) \<noteq> JNull \<longrightarrow>
        (case keys_next ?rest of Some k \<Rightarrow> k | None \<Rightarrow> JNull) \<in> set (map_keys ?rest)"
      by (auto split: option.splits dest: keys_next_member)
    ultimately show ?thesis
      using assms keys by (auto simp: room_ok_def host_is_participant_def)
  next
    case False
    then have "reassign_host sid room = room\<lparr>participants := ?rest\<rparr>"
      by (simp add: reassign_host_def Let_def)
    with False assms keys show ?thesis
      by (auto simp: room_ok_def host_is_participant_def)
  qed
qed

lemma reassign_host_others:
  "s \<noteq> sid \<Longrightarrow> member s room \<Longrightarrow> member s (reassign_host sid room)"
  by (auto simp: member_def reassign_host_def Let_def keys_map_delete)

lemma room_leave_inv:
  assumes inv: "hub_inv h" and c: "conns h sid = Some j"
  shows "hub_inv \<lparr>all_rooms = rooms (room_leave sid (view h j)),
                  conns = (conns h)(sid \<mapsto> joinedRoomId (room_leave sid (view h j)))\<rparr>"
proof (cases "truthy j \<and> all_rooms h j \<noteq> None")
  case False
  then have "room_leave sid (view h j) = view h j"
    by (auto simp: room_leave_def view_def)
  with hub_inv_unchanged [OF inv c] show ?thesis by (simp add: view_def)
next
  case True
  then obtain room where r: "all_rooms h j = Some room" and t: "truthy j" by blast
  from inv r have ok: "room_ok j room" by (rule hub_inv_room_ok)
  have "hub_inv \<lparr>all_rooms = (all_rooms h)(j \<mapsto> reassign_host sid room),
                 conns = (conns h)(sid := Some JNull)\<rparr>"
  proof (rule hub_inv_update [OF inv])
    show "room_ok j (reassign_host sid room)" using ok by (rule reassign_host_ok)
    show "\<forall>room' s. all_rooms h j = Some room' \<longrightarrow> s \<noteq> sid \<longrightarrow> member s room' \<longrightarrow>
            member s (reassign_host sid room)"
      using r reassign_host_others by simp
    show "\<forall>j'. Some JNull = Some j' \<longrightarrow> truthy j' \<longrightarrow>
            (\<exists>r. ((all_rooms h)(j \<mapsto> reassign_host sid room)) j' = Some r \<and> member sid r)"
      by auto
  qed
  moreover from r t have "rooms (room_leave sid (view h j)) = (all_rooms h)(j \<mapsto> reassign_host sid room)"
    and "joinedRoomId (room_leave sid (view h j)) = JNull"
    by (simp_all add: room_leave_def view_def Let_def)
  ultimately show ?thesis by simp
qed

lemma disconnect_inv:
  assumes inv: "hub_inv h" and c: "conns h sid = Some j"
  shows "hub_inv \<lparr>all_rooms = rooms (disconnect sid (view h j)), conns = (conns h)(sid := None)\<rparr>"
proof (cases "truthy j \<and> all_rooms h j \<noteq> None")
  case False
  then have "rooms (disconnect sid (view h j)) = all_rooms h"
    by (auto simp: disconnect_def view_def)
  moreover have "hub_inv \<lparr>all_rooms = all_rooms h, conns = (conns h)(sid := None)\<rparr>"
    by (rule hub_inv_conns [OF inv]) simp
  ultimately show ?thesis by simp
next
  case True
  then obtain room where r: "all_rooms h j = Some room" and t: "truthy j" by blast
  from inv r have ok: "room_ok j room" by (rule hub_inv_room_ok)
  have "hub_inv \<lparr>all_rooms = (all_rooms h)(j \<mapsto> reassign_host sid room),
                 conns = (conns h)(sid := None)\<rparr>"
  proof (rule hub_inv_update [OF inv])
    show "room_ok j (reassign_host sid room)" using ok by (rule reassign_host_ok)
    show "\<forall>room' s. all_rooms h j = Some room' \<longrightarrow> s \<noteq> sid \<longrightarrow> member s room' \<longrightarrow>
            member s (reassign_host sid room)"
      using r reassign_host_others by simp
    show "\<forall>j'. None = Some j' \<longrightarrow> truthy j' \<longrightarrow>
            (\<exists>r. ((all_rooms h)(j \<mapsto> reassign_host sid room)) j' = Some r \<and> member sid r)"
      by simp
  qed
  moreover from r t have "rooms (disconnect sid (view h j)) = (all_rooms h)(j \<mapsto> reassign_host sid room)"
    by (simp add: disconnect_def view_def Let_def)
  ultimately show ?thesis by simp
qed

lemma role_become_host_inv:
  assumes inv: "hub_inv h" and c: "conns h sid = Some j"
  shows "hub_inv \<lparr>all_rooms = rooms (role_become_host sid (view h j)),
                  conns = (conns h)(sid \<mapsto> joinedRoomId (role_become_host sid (view h j)))\<rparr>"
proof (cases "truthy j \<and> (\<exists>room. all_rooms h j = Some room \<and> \<not> truthy (hostId room))")
  case False
  then have "role_become_host sid (view h j) = view h j"
    by (auto simp: role_become_host_def view_def split: option.splits)
  with hub_inv_unchanged [OF inv c] show ?thesis by (simp add: view_def)
next
  case True
  then obtain room where r: "all_rooms h j = Some room" and t: "truthy j"
    and nohost: "\<not> truthy (hostId room)" by blast
  from inv r have ok: "room_ok j room" by (rule hub_inv_room_ok)
  from hub_inv_member [OF inv c t] r have mem: "member sid room" by simp
  have "hub_inv \<lparr>all_rooms = (all_rooms h)(j \<mapsto> room\<lparr>hostId := JStr sid\<rparr>),
                 conns = (conns h)(sid := Some j)\<rparr>"
  proof (rule hub_inv_update [OF inv])
    show "room_ok j (room\<lparr>hostId := JStr sid\<rparr>)"
      using ok mem by (simp add: room_ok_def host_is_participant_def member_def)
    show "\<forall>room' s. all_rooms h j = Some room' \<longrightarrow> s \<noteq> sid \<longrightarrow> member s room' \<longrightarrow>
            member s (room\<lparr>hostId := JStr sid\<rparr>)"
      using r by (simp add: member_def)
    show "\<forall>j'. Some j = Some j' \<longrightarrow> truthy j' \<longrightarrow>
            (\<exists>r. ((all_rooms h)(j \<mapsto> room\<lparr>hostId := JStr sid\<rparr>)) j' = Some r \<and> member sid r)"
      using mem by (simp add: member_def)
  qed
  moreover from r t nohost have "rooms (role_become_host sid (view h j))
        = (all_rooms h)(j \<mapsto> room\<lparr>hostId := JStr sid\<rparr>)"
    and "joinedRoomId (role_become_host sid (view h j)) = j"
    by (simp_all add: role_become_host_def view_def Let_def)
  ultimately show ?thesis by simp
qed

lemma join_rid_truthy: "join_rid rnd roomId = Inr rid \<Longrightarrow> truthy rid"
  by (auto simp: join_rid_def makeRoomId_nonempty split: if_splits jsval.splits)

text \<open>What a join that returns has done: \<open>base\<close> is the room found or created.\<close>

lemma room_join_result:
  assumes "room_join rnd now sid roomId nm st = Inr st'"
  shows "\<exists>rid base. join_rid rnd roomId = Inr rid \<and> truthy rid \<and>
           (rooms st rid = Some base \<or> rooms st rid = None \<and> base = new_room (later rnd) now rid) \<and>
           room_id (new_room (later rnd) now rid) = rid \<and>
           joinedRoomId st' = room_id base \<and>
           rooms st' = (rooms st)(rid \<mapsto> base
             \<lparr>participants := map_set (JStr sid) \<lparr>pid = JStr sid, name = val_or nm (JStr ''Guest'')\<rparr>
                                (participants base),
              hostId := (if \<not> truthy (hostId base) then JStr sid else hostId base)\<rparr>)"
proof -
  from assms obtain rid where rid: "join_rid rnd roomId = Inr rid"
    by (auto simp: room_join_def split: sum.splits)
  then have t: "truthy rid" by (rule join_rid_truthy)
  then have nid: "room_id (new_room (later rnd) now rid) = rid"
    by (simp add: new_room_def)
  show ?thesis
  proof (cases "rooms st rid")
    case None
    with assms rid t nid show ?thesis
      by (intro exI [of _ rid] exI [of _ "new_room (later rnd) now rid"])
         (auto simp: room_join_def getOrCreateRoom_def Let_def)
  next
    case (Some base)
    with assms rid t nid show ?thesis
      by (intro exI [of _ rid] exI [of _ base])
         (auto simp: room_join_def getOrCreateRoom_def Let_def)
  qed
qed

lemma new_room_ok: "truthy rid \<Longrightarrow> room_ok rid (new_room rnd now rid)"
  by (simp add: room_ok_def new_room_def host_is_participant_def map_keys_def num_truthy_def)

lemma joined_room_ok:
  assumes "room_ok rid base"
  shows "room_ok rid (base
             \<lparr>participants := map_set (JStr sid) v (participants base),
              hostId := (if \<not> truthy (hostId base) then JStr sid else hostId base)\<rparr>)"
  using assms by (auto simp: room_ok_def host_is_participant_def keys_map_set)

lemma room_join_inv:
  assumes inv: "hub_inv h" and c: "conns h sid = Some j"
    and res: "room_join rnd now sid roomId nm (view h j) = Inr st'"
  shows "hub_inv \<lparr>all_rooms = rooms st', conns = (conns h)(sid \<mapsto> joinedRoomId st')\<rparr>"
proof -
  from room_join_result [OF res] obtain rid base where
    t: "truthy rid"
    and base: "all_rooms h rid = Some base \<or> all_rooms h rid = None \<and> base = new_room (later rnd) now rid"
    and j': "joinedRoomId st' = room_id base"
    and rs: "rooms st' = (all_rooms h)(rid \<mapsto> base
             \<lparr>participants := map_set (JStr sid) \<lparr>pid = JStr sid, name = val_or nm (JStr ''Guest'')\<rparr>
                                (participants base),
              hostId := (if \<not> truthy (hostId base) then JStr sid else hostId base)\<rparr>)"
    by (auto simp: view_def)
  define room' where "room' = base
             \<lparr>participants := map_set (JStr sid) \<lparr>pid = JStr sid, name = val_or nm (JStr ''Guest'')\<rparr>
                                (participants base),
              hostId := (if \<not> truthy (hostId base) then JStr sid else hostId base)\<rparr>"
  from base t inv have ok: "room_ok rid base"
    using hub_inv_room_ok new_room_ok by blast
  then have id: "room_id base = rid" by (simp add: room_ok_def)
  have "hub_inv \<lparr>all_rooms = (all_rooms h)(rid \<mapsto> room'), conns = (conns h)(sid := Some rid)\<rparr>"
  proof (rule hub_inv_update [OF inv])
    show "room_ok rid room'" unfolding room'_def using ok by (rule joined_room_ok)
    show "\<forall>room s. all_rooms h rid = Some room \<longrightarrow> s \<noteq> sid \<longrightarrow> member s room \<longrightarrow> member s room'"
      using base by (auto simp: member_def room'_def keys_map_set)
    show "\<forall>j'. Some rid = Some j' \<longrightarrow> truthy j' \<longrightarrow>
            (\<exists>r. ((all_rooms h)(rid \<mapsto> room')) j' = Some r \<and> member sid r)"
      by (simp add: member_def room'_def keys_map_set)
  qed
  with j' rs id show ?thesis by (simp add: room'_def)
qed

lemma handle_inv:
  assumes inv: "hub_inv h" and c: "conns h sid = Some j"
    and res: "handle e sid m (view h j) = Inr st"
  shows "hub_inv \<lparr>all_rooms = rooms st, conns = (conns h)(sid \<mapsto> joinedRoomId st)\<rparr>"
proof (cases m)
  case (Room_join roomId nm)
  with res room_join_inv [OF inv c] show ?thesis by simp
next
  case Room_leave
  with res room_leave_inv [OF inv c] show ?thesis by auto
next
  case Role_become_host
  with res role_become_host_inv [OF inv c] show ?thesis by auto
next
  case (Set_source payload)
  with res player_set_source_inv [OF inv c] show ?thesis by auto
next
  case (Play a r t)
  with res player_play_inv [OF inv c] show ?thesis by auto
next
  case (Pause a t)
  with res player_pause_inv [OF inv c] show ?thesis by auto
next
  case (Seek a t)
  with res player_seek_inv [OF inv c] show ?thesis by auto
next
  case (Rate r t)
  with res player_rate_inv [OF inv c] show ?thesis by auto
next
  case Sync_request
  with res sync_chat_inv(1) [OF inv c] show ?thesis by auto
next
  case (Chat tx nm)
  with res sync_chat_inv(2) [OF inv c] show ?thesis by auto
qed

lemma reachable_inv: "reachable h \<Longrightarrow> hub_inv h"
proof (induction rule: reachable.induct)
  case start
  show ?case by (simp add: hub_inv_def)
next
  case (connect h sid)
  have "hub_inv \<lparr>all_rooms = all_rooms h, conns = (conns h)(sid := Some JNull)\<rparr>"
    by (rule hub_inv_conns [OF connect.IH]) simp
  then show ?case by (simp add: hub_inv_def)
next
  case (deliver h sid j e m st)
  then show ?case using handle_inv by blast
next
  case (hangup h sid j)
  then show ?case using disconnect_inv by blast
qed

subsection \<open>Runs are reachable\<close>

lemma reachable_step: "reachable h \<Longrightarrow> reachable (step h ev)"
proof (cases ev)
  case (Connects sid)
  assume "reachable h"
  with Connects show ?thesis
    by (auto split: option.splits intro: reachable.connect)
next
  case (Delivers e sid m)
  assume "reachable h"
  with Delivers show ?thesis
    by (auto split: option.splits sum.splits intro: reachable.deliver)
next
  case (Hangs_up sid)
  assume "reachable h"
  with Hangs_up show ?thesis
    by (auto split: option.splits intro: reachable.hangup)
qed

lemma reachable_foldl: "reachable h \<Longrightarrow> reachable (foldl step h evs)"
  by (induction evs arbitrary: h) (simp_all add: reachable_step)

lemma reachable_run: "reachable (run evs)"
  unfolding run_def by (rule reachable_foldl) (rule reachable.start)

lemma api_reachable_foldl:
  "api_reachable rs \<Longrightarrow> api_reachable (foldl (\<lambda>rs (e, req). snd (serve e req rs)) rs reqs)"
proof (induction reqs arbitrary: rs)
  case Nil
  then show ?case by simp
next
  case (Cons x reqs)
  obtain e req where x: "x = (e, req)" by (cases x)
  from Cons.prems have "api_reachable (snd (serve e req rs))" by (rule api_step)
  with Cons.IH x show ?case by simp
qed

lemma api_reachable_run: "api_reachable (api_run reqs)"
  unfolding api_run_def by (rule api_reachable_foldl) (rule api_start)

lemma ex_trim: "trim ''ROOM42'' = ''ROOM42''"
  by (simp add: trim_def js_space_def)

lemma ex_run_rooms: "all_rooms (run ex_events) (JStr ''ROOM42'') = Some ex_room"
  by (simp add: run_def ex_events_def ex_env_def view_def room_join_def join_rid_def ex_trim
        getOrCreateRoom_def new_room_def Let_def val_or_def player_play_def host_room_def
        num_or_def num_truthy_def ex_room_def)

lemma ex_run_conns:
  "conns (run ex_events) ''a'' = Some (JStr ''ROOM42'') \<and>
   conns (run ex_events) ''b'' = Some (JStr ''ROOM42'')"
  by (simp add: run_def ex_events_def ex_env_def view_def room_join_def join_rid_def ex_trim
        getOrCreateRoom_def new_room_def Let_def val_or_def player_play_def host_room_def
        num_or_def num_truthy_def)

subsection \<open>The host is a participant\<close>

text \<open>What a join of the API has done: \<open>base\<close> is the room found or created.\<close>

lemma api_join_result:
  "\<exists>rid base.
     rid = (if \<not> truthy roomId then JStr (makeRoomId rnd) else roomId) \<and>
     (rs rid = Some base \<or>
      rs rid = None \<and> hostId base = JNull \<and> participants base = [] \<and> messages base = [] \<and>
        room_id base = rid) \<and>
     snd (api_join rnd now roomId nm uid rs) = rs(rid \<mapsto> base
       \<lparr>participants := map_set uid \<lparr>pid = uid, name = val_or nm (JStr ''Guest''), lastSeen = now\<rparr>
                          (participants base),
        hostId := (if \<not> truthy (hostId base) then uid else hostId base)\<rparr>)"
proof -
  define rid where "rid = (if \<not> truthy roomId then JStr (makeRoomId rnd) else roomId)"
  show ?thesis
  proof (cases "rs rid")
    case None
    then show ?thesis
      unfolding rid_def
      by (intro exI [of _ rid] exI [of _ "\<lparr>room_id = rid, hostId = JNull, participants = [],
              source = None,
              playback = \<lparr>status = Paused, at_sec = JNum (Fin 0), rate = JNum (Fin 1), ts = Fin now\<rparr>,
              messages = []\<rparr>"])
         (simp add: api_join_def api_getOrCreateRoom_def Let_def rid_def)
  next
    case (Some base)
    then show ?thesis
      unfolding rid_def
      by (intro exI [of _ rid] exI [of _ base])
         (simp add: api_join_def api_getOrCreateRoom_def Let_def rid_def)
  qed
qed

lemma api_joined_host:
  assumes "host_is_participant base"
  shows "host_is_participant (base
       \<lparr>participants := map_set uid v (participants base),
        hostId := (if \<not> truthy (hostId base) then uid else hostId base)\<rparr>)"
  using assms by (auto simp: host_is_participant_def keys_map_set)

lemma serve_keeps_host:
  assumes "\<forall>k room. rs k = Some room \<longrightarrow> host_is_participant room"
  shows "\<forall>k room. snd (serve e req rs) k = Some room \<longrightarrow> host_is_participant room"
proof (cases req)
  case (Post_join roomId nm uid)
  from api_join_result [of roomId "draws e" rs "clock e" nm uid]
  obtain rid base where
    base: "rs rid = Some base \<or> rs rid = None \<and> hostId base = JNull \<and> participants base = [] \<and>
              messages base = [] \<and> room_id base = rid"
    and res: "snd (api_join (draws e) (clock e) roomId nm uid rs) = rs(rid \<mapsto> base
       \<lparr>participants := map_set uid \<lparr>pid = uid, name = val_or nm (JStr ''Guest''), lastSeen = clock e\<rparr>
                          (participants base),
        hostId := (if \<not> truthy (hostId base) then uid else hostId base)\<rparr>)"
    by blast
  from base assms have "host_is_participant base"
    by (auto simp: host_is_participant_def)
  then have "host_is_participant (base
       \<lparr>participants := map_set uid \<lparr>pid = uid, name = val_or nm (JStr ''Guest''), lastSeen = clock e\<rparr>
                          (participants base),
        hostId := (if \<not> truthy (hostId base) then uid else hostId base)\<rparr>)"
    by (rule api_joined_host)
  with assms res Post_join show ?thesis by (auto split: if_splits)
next
  case (Post_source roomId uid src)
  with assms show ?thesis
    by (auto simp: api_source_def host_is_participant_def split: option.splits if_splits)
next
  case (Post_playback roomId uid action a r t)
  with assms show ?thesis
    by (auto simp: api_playback_def host_is_participant_def split: option.splits if_splits)
next
  case (Post_chat roomId uid text_v nm)
  with assms show ?thesis
    by (auto simp: api_chat_def Let_def host_is_participant_def split: option.splits if_splits)
qed

lemma api_reachable_host:
  "api_reachable rs \<Longrightarrow> \<forall>k room. rs k = Some room \<longrightarrow> host_is_participant room"
proof (induction rule: api_reachable.induct)
  case api_start
  show ?case by simp
next
  case (api_step rs e req)
  then show ?case using serve_keeps_host by blast
qed

text \<open>
  C6. In every state the relay can reach, by connects, joins, leaves, disconnects,
  become-host requests, source and playback commands, sync requests and chat messages in
  any order, the host of every room is null or a key of its participants; so it is in
  every state the polling API can reach by its joins, source and playback commands and
  chat posts; and a room as it is created has no host.
\<close>

theorem host_invariant:
  "(reachable h \<and> all_rooms h k = Some room \<longrightarrow> host_is_participant room) \<and>
   (api_reachable rs \<and> rs k' = Some aroom \<longrightarrow> host_is_participant aroom) \<and>
   hostId (new_room rnd now rid) = JNull \<and> host_is_participant (new_room rnd now rid)"
proof (intro conjI impI)
  assume "reachable h \<and> all_rooms h k = Some room"
  then have "room_ok k room"
    using reachable_inv hub_inv_room_ok by blast
  then show "host_is_participant room" by (simp add: room_ok_def)
next
  assume "api_reachable rs \<and> rs k' = Some aroom"
  then show "host_is_participant aroom" using api_reachable_host by blast
next
  show "hostId (new_room rnd now rid) = JNull" by (simp add: new_room_def)
  show "host_is_participant (new_room rnd now rid)"
    by (simp add: new_room_def host_is_participant_def)
qed

theorem host_invariant_witness:
  "reachable (run ex_events) \<and> all_rooms (run ex_events) (JStr ''ROOM42'') = Some ex_room \<and>
   hostId ex_room = JStr ''a'' \<and> JStr ''a'' \<in> set (map_keys (participants ex_room)) \<and>
   api_reachable (api_run ex_requests) \<and>
   (\<exists>aroom. api_run ex_requests (JStr ''ROOM42'') = Some aroom \<and> hostId aroom = JStr ''a'' \<and>
      JStr ''a'' \<in> set (map_keys (participants aroom)))"
proof -
  have "host_is_participant ex_room"
    using host_invariant [where h = "run ex_events" and k = "JStr ''ROOM42''" and room = ex_room]
      reachable_run ex_run_rooms by blast
  moreover have host: "hostId ex_room = JStr ''a''" by (simp add: ex_room_def)
  ultimately have a: "JStr ''a'' \<in> set (map_keys (participants ex_room))"
    by (simp add: host_is_participant_def)
  have joined: "\<exists>aroom. api_run ex_requests (JStr ''ROOM42'') = Some aroom \<and> hostId aroom = JStr ''a''"
    by (simp add: api_run_def ex_requests_def ex_env_def api_join_def api_getOrCreateRoom_def
          Let_def val_or_def)
  then obtain aroom where ar: "api_run ex_requests (JStr ''ROOM42'') = Some aroom"
    "hostId aroom = JStr ''a''" by blast
  then have "host_is_participant aroom"
    using host_invariant [where rs = "api_run ex_requests" and k' = "JStr ''ROOM42''"
        and aroom = aroom] api_reachable_run by blast
  with ar have "JStr ''a'' \<in> set (map_keys (participants aroom))"
    by (simp add: host_is_participant_def)
  with ar a host reachable_run ex_run_rooms api_reachable_run show ?thesis by blast
qed

subsection \<open>The host leaves\<close>

lemma reassign_host_of_host:
  assumes "hostId room = JStr sid"
  shows "participants (reassign_host sid room) = map_delete (JStr sid) (participants room) \<and>
         hostId (reassign_host sid room) =
           (case keys_next (map_delete (JStr sid) (participants room)) of
              Some k \<Rightarrow> k | None \<Rightarrow> JNull)"
  using assms by (simp add: reassign_host_def Let_def)

lemma handover:
  assumes ok: "room_ok j room" and host: "hostId room = JStr sid"
  shows "participants (reassign_host sid room) = map_delete (JStr sid) (participants room) \<and>
         (participants (reassign_host sid room) \<noteq> [] \<longrightarrow>
            hostId (reassign_host sid room) \<noteq> JNull \<and>
            hostId (reassign_host sid room) \<in> set (map_keys (participants (reassign_host sid room))) \<and>
            keys_next (participants (reassign_host sid room)) = Some (hostId (reassign_host sid room))) \<and>
         (participants (reassign_host sid room) = [] \<longrightarrow> hostId (reassign_host sid room) = JNull)"
proof (cases "keys_next (map_delete (JStr sid) (participants room))")
  case None
  then have "map_delete (JStr sid) (participants room) = []" by (simp add: keys_next_none)
  with None reassign_host_of_host [OF host] show ?thesis by simp
next
  case (Some k)
  then have in_rest: "k \<in> set (map_keys (map_delete (JStr sid) (participants room)))"
    by (rule keys_next_member)
  then have "k \<in> set (map_keys (participants room))" by (simp add: keys_map_delete)
  with ok have "k \<noteq> JNull" by (auto simp: room_ok_def)
  moreover from Some have "map_delete (JStr sid) (participants room) \<noteq> []"
    using keys_next_none [of "map_delete (JStr sid) (participants room)"] by auto
  ultimately show ?thesis
    using Some in_rest reassign_host_of_host [OF host] by simp
qed

text \<open>
  C5. In a state the relay can reach, let the socket \<open>sid\<close> be the host of the room it has
  joined. After its \<^verbatim>\<open>room:leave\<close>, and likewise after its \<^verbatim>\<open>disconnect\<close>, the room's
  participants are the former ones without \<open>sid\<close>; if any remain, the host is one of them,
  the first in the order of the map, and not null; if none remain, the host is null.
\<close>

theorem host_handover:
  "reachable h \<and> conns h sid = Some j \<and> all_rooms h j = Some room \<and> hostId room = JStr sid \<longrightarrow>
     (\<exists>r'. rooms (room_leave sid (view h j)) j = Some r' \<and>
        participants r' = map_delete (JStr sid) (participants room) \<and>
        (participants r' \<noteq> [] \<longrightarrow>
           hostId r' \<noteq> JNull \<and> hostId r' \<in> set (map_keys (participants r')) \<and>
           keys_next (participants r') = Some (hostId r')) \<and>
        (participants r' = [] \<longrightarrow> hostId r' = JNull)) \<and>
     (\<exists>r'. rooms (disconnect sid (view h j)) j = Some r' \<and>
        participants r' = map_delete (JStr sid) (participants room) \<and>
        (participants r' \<noteq> [] \<longrightarrow>
           hostId r' \<noteq> JNull \<and> hostId r' \<in> set (map_keys (participants r')) \<and>
           keys_next (participants r') = Some (hostId r')) \<and>
        (participants r' = [] \<longrightarrow> hostId r' = JNull))"
proof (intro impI)
  assume h: "reachable h \<and> conns h sid = Some j \<and> all_rooms h j = Some room \<and> hostId room = JStr sid"
  then have ok: "room_ok j room"
    using reachable_inv hub_inv_room_ok by blast
  then have t: "truthy j" by (simp add: room_ok_def)
  from h have host: "hostId room = JStr sid" by simp
  from h t have l: "rooms (room_leave sid (view h j)) j = Some (reassign_host sid room)"
    by (simp add: room_leave_def view_def Let_def)
  from h t have d: "rooms (disconnect sid (view h j)) j = Some (reassign_host sid room)"
    by (simp add: disconnect_def view_def Let_def)
  from l handover [OF ok host] have left:
    "\<exists>r'. rooms (room_leave sid (view h j)) j = Some r' \<and>
        participants r' = map_delete (JStr sid) (participants room) \<and>
        (participants r' \<noteq> [] \<longrightarrow>
           hostId r' \<noteq> JNull \<and> hostId r' \<in> set (map_keys (participants r')) \<and>
           keys_next (participants r') = Some (hostId r')) \<and>
        (participants r' = [] \<longrightarrow> hostId r' = JNull)"
    by blast
  from d handover [OF ok host] have gone:
    "\<exists>r'. rooms (disconnect sid (view h j)) j = Some r' \<and>
        participants r' = map_delete (JStr sid) (participants room) \<and>
        (participants r' \<noteq> [] \<longrightarrow>
           hostId r' \<noteq> JNull \<and> hostId r' \<in> set (map_keys (participants r')) \<and>
           keys_next (participants r') = Some (hostId r')) \<and>
        (participants r' = [] \<longrightarrow> hostId r' = JNull)"
    by blast
  from left gone show
    "(\<exists>r'. rooms (room_leave sid (view h j)) j = Some r' \<and>
        participants r' = map_delete (JStr sid) (participants room) \<and>
        (participants r' \<noteq> [] \<longrightarrow>
           hostId r' \<noteq> JNull \<and> hostId r' \<in> set (map_keys (participants r')) \<and>
           keys_next (participants r') = Some (hostId r')) \<and>
        (participants r' = [] \<longrightarrow> hostId r' = JNull)) \<and>
     (\<exists>r'. rooms (disconnect sid (view h j)) j = Some r' \<and>
        participants r' = map_delete (JStr sid) (participants room) \<and>
        (participants r' \<noteq> [] \<longrightarrow>
           hostId r' \<noteq> JNull \<and> hostId r' \<in> set (map_keys (participants r')) \<and>
           keys_next (participants r') = Some (hostId r')) \<and>
        (participants r' = [] \<longrightarrow> hostId r' = JNull))"
    by (rule conjI)
qed

theorem host_handover_witness:
  "map_option (\<lambda>r. (map_keys (participants r), hostId r))
     (rooms (room_leave ''a'' (view (run ex_events) (JStr ''ROOM42''))) (JStr ''ROOM42''))
     = Some ([JStr ''b''], JStr ''b'') \<and>
   map_option (\<lambda>r. (map_keys (participants r), hostId r))
     (rooms (disconnect ''a'' (view (run ex_events) (JStr ''ROOM42''))) (JStr ''ROOM42''))
     = Some ([JStr ''b''], JStr ''b'') \<and>
   map_option (\<lambda>r. (map_keys (participants r), hostId r))
     (rooms (disconnect ''a'' (view (run (take 2 ex_events)) (JStr ''ROOM42''))) (JStr ''ROOM42''))
     = Some ([], JNull)"
proof -
  have rest: "map_delete (JStr ''a'') (participants ex_room)
                = [(JStr ''b'', \<lparr>pid = JStr ''b'', name = JStr ''Bob''\<rparr>)]"
    by (simp add: ex_room_def map_delete_def)
  have host: "hostId ex_room = JStr ''a''" by (simp add: ex_room_def)
  note inst = host_handover [where h = "run ex_events" and sid = "''a''" and j = "JStr ''ROOM42''"
      and room = ex_room]
  from inst reachable_run ex_run_rooms ex_run_conns host rest
  obtain r1 where r1: "rooms (room_leave ''a'' (view (run ex_events) (JStr ''ROOM42''))) (JStr ''ROOM42'')
      = Some r1" "participants r1 = [(JStr ''b'', \<lparr>pid = JStr ''b'', name = JStr ''Bob''\<rparr>)]"
      "participants r1 \<noteq> [] \<longrightarrow> keys_next (participants r1) = Some (hostId r1)"
    by auto
  from inst reachable_run ex_run_rooms ex_run_conns host rest
  obtain r2 where r2: "rooms (disconnect ''a'' (view (run ex_events) (JStr ''ROOM42''))) (JStr ''ROOM42'')
      = Some r2" "participants r2 = [(JStr ''b'', \<lparr>pid = JStr ''b'', name = JStr ''Bob''\<rparr>)]"
      "participants r2 \<noteq> [] \<longrightarrow> keys_next (participants r2) = Some (hostId r2)"
    by auto
  define solo :: relay_room where "solo =
     \<lparr>room_id = JStr ''ROOM42'', hostId = JStr ''a'',
      participants = [(JStr ''a'', \<lparr>pid = JStr ''a'', name = JStr ''Ann''\<rparr>)],
      source = None,
      playback = \<lparr>status = Paused, at_sec = Fin 0, rate = Fin 1, ts = Fin 9000\<rparr>\<rparr>"
  have solo_run: "all_rooms (run (take 2 ex_events)) (JStr ''ROOM42'') = Some solo \<and>
      conns (run (take 2 ex_events)) ''a'' = Some (JStr ''ROOM42'')"
    by (simp add: run_def ex_events_def ex_env_def view_def room_join_def join_rid_def ex_trim
          getOrCreateRoom_def new_room_def Let_def val_or_def solo_def)
  have solo_rest: "map_delete (JStr ''a'') (participants solo) = []" "hostId solo = JStr ''a''"
    by (simp_all add: solo_def map_delete_def)
  from host_handover [where h = "run (take 2 ex_events)" and sid = "''a''"
      and j = "JStr ''ROOM42''" and room = solo] reachable_run solo_run solo_rest
  obtain r3 where r3: "rooms (disconnect ''a'' (view (run (take 2 ex_events)) (JStr ''ROOM42'')))
        (JStr ''ROOM42'') = Some r3" "participants r3 = []"
      "participants r3 = [] \<longrightarrow> hostId r3 = JNull"
    by auto
  from r1 r2 r3 show ?thesis by (simp add: map_keys_def)
qed

subsection \<open>Stored rates and positions\<close>

text \<open>
  C10. In every state the relay can reach, the stored rate of every room is a number other
  than 0 and the stored position is a number. A \<^verbatim>\<open>player:play\<close> or \<^verbatim>\<open>player:rate\<close> of the
  host always stores such a rate; when the \<^verbatim>\<open>rate\<close> of the message is missing, 0 or not
  numeric (\<^verbatim>\<open>Number(rate)\<close> is NaN), it stores 1. When \<^verbatim>\<open>at\<close>, or \<^verbatim>\<open>to\<close>, is missing or not
  numeric, \<^verbatim>\<open>player:play\<close>, \<^verbatim>\<open>player:pause\<close> and \<^verbatim>\<open>player:seek\<close> store the position 0.
\<close>

theorem stored_rate_never_zero:
  "(reachable h \<and> all_rooms h k = Some room \<longrightarrow>
      rate (playback room) \<noteq> Fin 0 \<and> rate (playback room) \<noteq> NaN \<and>
      at_sec (playback room) \<noteq> NaN) \<and>
   (host_room sid st = Some room \<longrightarrow>
      (\<exists>r'. rooms (player_play s2n now sid av rv tv st) (joinedRoomId st) = Some r' \<and>
         rate (playback r') \<noteq> Fin 0 \<and> rate (playback r') \<noteq> NaN) \<and>
      (\<exists>r'. rooms (player_rate s2n now sid rv tv st) (joinedRoomId st) = Some r' \<and>
         rate (playback r') \<noteq> Fin 0 \<and> rate (playback r') \<noteq> NaN)) \<and>
   (host_room sid st = Some room \<and>
    (rv = JUndefined \<or> rv = JNum (Fin 0) \<or> js_Number s2n rv = NaN) \<longrightarrow>
      (\<exists>r'. rooms (player_play s2n now sid av rv tv st) (joinedRoomId st) = Some r' \<and>
         rate (playback r') = Fin 1) \<and>
      (\<exists>r'. rooms (player_rate s2n now sid rv tv st) (joinedRoomId st) = Some r' \<and>
         rate (playback r') = Fin 1)) \<and>
   (host_room sid st = Some room \<and> (av = JUndefined \<or> js_Number s2n av = NaN) \<longrightarrow>
      (\<exists>r'. rooms (player_play s2n now sid av rv tv st) (joinedRoomId st) = Some r' \<and>
         at_sec (playback r') = Fin 0) \<and>
      (\<exists>r'. rooms (player_pause s2n now sid av tv st) (joinedRoomId st) = Some r' \<and>
         at_sec (playback r') = Fin 0) \<and>
      (\<exists>r'. rooms (player_seek s2n now sid av tv st) (joinedRoomId st) = Some r' \<and>
         at_sec (playback r') = Fin 0))"
proof (intro conjI impI)
  assume "reachable h \<and> all_rooms h k = Some room"
  then have "room_ok k room"
    using reachable_inv hub_inv_room_ok by blast
  then show "rate (playback room) \<noteq> Fin 0" and "rate (playback room) \<noteq> NaN"
    and "at_sec (playback room) \<noteq> NaN"
    by (simp_all add: room_ok_def num_truthy_def)
next
  assume h: "host_room sid st = Some room"
  have ok: "num_or (js_Number s2n rv) (Fin 1) \<noteq> Fin 0 \<and> num_or (js_Number s2n rv) (Fin 1) \<noteq> NaN"
    using num_or_rate_truthy [of "js_Number s2n rv"] by (simp add: num_truthy_def)
  from h ok show "\<exists>r'. rooms (player_play s2n now sid av rv tv st) (joinedRoomId st) = Some r' \<and>
         rate (playback r') \<noteq> Fin 0 \<and> rate (playback r') \<noteq> NaN"
    by (simp add: player_play_def Let_def)
  from h ok show "\<exists>r'. rooms (player_rate s2n now sid rv tv st) (joinedRoomId st) = Some r' \<and>
         rate (playback r') \<noteq> Fin 0 \<and> rate (playback r') \<noteq> NaN"
    by (simp add: player_rate_def Let_def)
next
  assume h: "host_room sid st = Some room \<and>
    (rv = JUndefined \<or> rv = JNum (Fin 0) \<or> js_Number s2n rv = NaN)"
  then have one: "num_or (js_Number s2n rv) (Fin 1) = Fin 1"
    by (auto simp: num_or_def num_truthy_def)
  from h one show "\<exists>r'. rooms (player_play s2n now sid av rv tv st) (joinedRoomId st) = Some r' \<and>
         rate (playback r') = Fin 1"
    by (simp add: player_play_def Let_def)
  from h one show "\<exists>r'. rooms (player_rate s2n now sid rv tv st) (joinedRoomId st) = Some r' \<and>
         rate (playback r') = Fin 1"
    by (simp add: player_rate_def Let_def)
next
  assume h: "host_room sid st = Some room \<and> (av = JUndefined \<or> js_Number s2n av = NaN)"
  then have zero: "num_or (js_Number s2n av) (Fin 0) = Fin 0"
    by (auto simp: num_or_def num_truthy_def)
  from h zero show "\<exists>r'. rooms (player_play s2n now sid av rv tv st) (joinedRoomId st) = Some r' \<and>
         at_sec (playback r') = Fin 0"
    by (simp add: player_play_def Let_def)
  from h zero show "\<exists>r'. rooms (player_pause s2n now sid av tv st) (joinedRoomId st) = Some r' \<and>
         at_sec (playback r') = Fin 0"
    by (simp add: player_pause_def Let_def)
  from h zero show "\<exists>r'. rooms (player_seek s2n now sid av tv st) (joinedRoomId st) = Some r' \<and>
         at_sec (playback r') = Fin 0"
    by (simp add: player_seek_def Let_def)
qed

theorem stored_rate_never_zero_witness:
  "reachable (run ex_events) \<and> all_rooms (run ex_events) (JStr ''ROOM42'') = Some ex_room \<and>
   rate (playback ex_room) = Fin 2 \<and>
   host_room ''a'' ex_relay = Some ex_room \<and>
   map_option playback
     (rooms (player_rate (\<lambda>s. NaN) 9000 ''a'' (JNum (Fin 0)) JUndefined ex_relay) (JStr ''ROOM42''))
     = Some \<lparr>status = Playing, at_sec = Fin 10, rate = Fin 1, ts = Fin 9000\<rparr> \<and>
   map_option playback
     (rooms (player_play (\<lambda>s. NaN) 9000 ''a'' JUndefined (JStr ''fast'') JUndefined ex_relay)
        (JStr ''ROOM42''))
     = Some \<lparr>status = Playing, at_sec = Fin 0, rate = Fin 1, ts = Fin 9000\<rparr> \<and>
   map_option playback
     (rooms (player_seek (\<lambda>s. NaN) 9000 ''a'' (JStr ''later'') JUndefined ex_relay)
        (JStr ''ROOM42''))
     = Some \<lparr>status = Playing, at_sec = Fin 0, rate = Fin 2, ts = Fin 9000\<rparr>"
proof -
  have hr: "host_room ''a'' ex_relay = Some ex_room"
    by (simp add: host_room_def ex_relay_def ex_room_def)
  have "rate (playback ex_room) \<noteq> Fin 0 \<and> rate (playback ex_room) \<noteq> NaN"
    using stored_rate_never_zero [where h = "run ex_events" and k = "JStr ''ROOM42''"
        and room = ex_room] reachable_run ex_run_rooms by blast
  moreover have "rate (playback ex_room) = Fin 2" by (simp add: ex_room_def)
  moreover
  have "map_option playback
     (rooms (player_rate (\<lambda>s. NaN) 9000 ''a'' (JNum (Fin 0)) JUndefined ex_relay) (JStr ''ROOM42''))
     = Some \<lparr>status = Playing, at_sec = Fin 10, rate = Fin 1, ts = Fin 9000\<rparr>"
    using stored_rate_never_zero [where sid = "''a''" and st = ex_relay and room = ex_room
        and rv = "JNum (Fin 0)" and s2n = "\<lambda>s. NaN" and now = 9000 and tv = JUndefined
        and av = JUndefined] hr
    by (simp add: ex_relay_def ex_room_def player_rate_def host_room_def num_or_def num_truthy_def)
  moreover
  have "map_option playback
     (rooms (player_play (\<lambda>s. NaN) 9000 ''a'' JUndefined (JStr ''fast'') JUndefined ex_relay)
        (JStr ''ROOM42''))
     = Some \<lparr>status = Playing, at_sec = Fin 0, rate = Fin 1, ts = Fin 9000\<rparr>"
    using stored_rate_never_zero [where sid = "''a''" and st = ex_relay and room = ex_room
        and rv = "JStr ''fast''" and s2n = "\<lambda>s. NaN" and now = 9000 and tv = JUndefined
        and av = JUndefined] hr
    by (simp add: ex_relay_def ex_room_def player_play_def host_room_def num_or_def num_truthy_def)
  moreover
  have "map_option playback
     (rooms (player_seek (\<lambda>s. NaN) 9000 ''a'' (JStr ''later'') JUndefined ex_relay)
        (JStr ''ROOM42''))
     = Some \<lparr>status = Playing, at_sec = Fin 0, rate = Fin 2, ts = Fin 9000\<rparr>"
    using stored_rate_never_zero [where sid = "''a''" and st = ex_relay and room = ex_room
        and av = "JStr ''later''" and s2n = "\<lambda>s. NaN" and now = 9000 and tv = JUndefined
        and rv = JUndefined] hr
    by (simp add: ex_relay_def ex_room_def player_seek_def host_room_def num_or_def num_truthy_def)
  ultimately show ?thesis using hr reachable_run ex_run_rooms by blast
qed

subsection \<open>Joining twice\<close>

text \<open>What a join of the relay with a room code does: \<open>base\<close> is the room found or created.\<close>

lemma room_join_named:
  assumes "trim s \<noteq> []"
  shows "\<exists>st' base.
     room_join rnd now sid (JStr s) nm st = Inr st' \<and>
     (rooms st (JStr (trim s)) = Some base \<or>
      rooms st (JStr (trim s)) = None \<and> base = new_room (later rnd) now (JStr (trim s))) \<and>
     joinedRoomId st' = room_id base \<and>
     rooms st' = (rooms st)(JStr (trim s) \<mapsto> base
       \<lparr>participants := map_set (JStr sid) \<lparr>pid = JStr sid, name = val_or nm (JStr ''Guest'')\<rparr>
                          (participants base),
        hostId := (if \<not> truthy (hostId base) then JStr sid else hostId base)\<rparr>)"
proof -
  from assms have "s \<noteq> []" by (auto simp: trim_def)
  with assms have rid: "join_rid rnd (JStr s) = Inr (JStr (trim s))"
    by (simp add: join_rid_def)
  show ?thesis
  proof (cases "rooms st (JStr (trim s))")
    case None
    with rid assms show ?thesis
      by (simp add: room_join_def getOrCreateRoom_def Let_def new_room_def)
  next
    case (Some base)
    with rid show ?thesis
      by (simp add: room_join_def getOrCreateRoom_def Let_def)
  qed
qed

text \<open>
  C9. Two joins of the same socket with the same room code, and two joins of the polling API
  with the same \<^verbatim>\<open>userId\<close> and the same truthy \<^verbatim>\<open>roomId\<close>, leave the room with the keys it
  had after the first: the second join replaces the entry of that participant where it
  stands (its name, and in the API its \<^verbatim>\<open>lastSeen\<close>), adds none, and changes neither the
  host, nor the source, nor the playback, nor any other room.
\<close>

theorem join_twice:
  "(trim s \<noteq> [] \<longrightarrow>
      (\<exists>st1 st2 r1 r2.
         room_join rnda nowa sid (JStr s) nma st = Inr st1 \<and>
         room_join rndb nowb sid (JStr s) nmb st1 = Inr st2 \<and>
         rooms st1 (JStr (trim s)) = Some r1 \<and> rooms st2 (JStr (trim s)) = Some r2 \<and>
         map_keys (participants r2) = map_keys (participants r1) \<and>
         participants r2 =
           map_set (JStr sid) \<lparr>pid = JStr sid, name = val_or nmb (JStr ''Guest'')\<rparr> (participants r1) \<and>
         hostId r2 = hostId r1 \<and> source r2 = source r1 \<and> playback r2 = playback r1 \<and>
         room_id r2 = room_id r1 \<and> joinedRoomId st2 = joinedRoomId st1 \<and>
         (\<forall>k. k \<noteq> JStr (trim s) \<longrightarrow> rooms st2 k = rooms st1 k))) \<and>
   (truthy roomId \<longrightarrow>
      (\<exists>rs1 rs2 a1 a2.
         snd (api_join rnda nowa roomId nma uid rs) = rs1 \<and>
         snd (api_join rndb nowb roomId nmb uid rs1) = rs2 \<and>
         rs1 roomId = Some a1 \<and> rs2 roomId = Some a2 \<and>
         map_keys (participants a2) = map_keys (participants a1) \<and>
         participants a2 =
           map_set uid \<lparr>pid = uid, name = val_or nmb (JStr ''Guest''), lastSeen = nowb\<rparr>
             (participants a1) \<and>
         hostId a2 = hostId a1 \<and> source a2 = source a1 \<and> playback a2 = playback a1 \<and>
         room_id a2 = room_id a1 \<and> messages a2 = messages a1 \<and>
         (\<forall>k. k \<noteq> roomId \<longrightarrow> rs2 k = rs1 k)))"
proof (intro conjI impI)
  assume t: "trim s \<noteq> []"
  let ?k = "JStr (trim s)"
  from room_join_named [OF t, of rnda nowa sid nma st]
  obtain st1 base where
    j1: "room_join rnda nowa sid (JStr s) nma st = Inr st1"
    and id1: "joinedRoomId st1 = room_id base"
    and rs1: "rooms st1 = (rooms st)(?k \<mapsto> base
       \<lparr>participants := map_set (JStr sid) \<lparr>pid = JStr sid, name = val_or nma (JStr ''Guest'')\<rparr>
                          (participants base),
        hostId := (if \<not> truthy (hostId base) then JStr sid else hostId base)\<rparr>)"
    by blast
  define r1 where "r1 = base
       \<lparr>participants := map_set (JStr sid) \<lparr>pid = JStr sid, name = val_or nma (JStr ''Guest'')\<rparr>
                          (participants base),
        hostId := (if \<not> truthy (hostId base) then JStr sid else hostId base)\<rparr>"
  from rs1 have at1: "rooms st1 ?k = Some r1" by (simp add: r1_def)
  from room_join_named [OF t, of rndb nowb sid nmb st1] at1
  obtain st2 where
    j2: "room_join rndb nowb sid (JStr s) nmb st1 = Inr st2"
    and id2: "joinedRoomId st2 = room_id r1"
    and rs2: "rooms st2 = (rooms st1)(?k \<mapsto> r1
       \<lparr>participants := map_set (JStr sid) \<lparr>pid = JStr sid, name = val_or nmb (JStr ''Guest'')\<rparr>
                          (participants r1),
        hostId := (if \<not> truthy (hostId r1) then JStr sid else hostId r1)\<rparr>)"
    by auto
  define r2 where "r2 = r1
       \<lparr>participants := map_set (JStr sid) \<lparr>pid = JStr sid, name = val_or nmb (JStr ''Guest'')\<rparr>
                          (participants r1),
        hostId := (if \<not> truthy (hostId r1) then JStr sid else hostId r1)\<rparr>"
  from rs2 have at2: "rooms st2 ?k = Some r2" by (simp add: r2_def)
  have keys: "map_keys (participants r2) = map_keys (participants r1)"
    by (simp add: r2_def r1_def map_keys_map_set_twice)
  have host: "hostId r2 = hostId r1"
    by (simp add: r2_def r1_def)
  have rest: "source r2 = source r1 \<and> playback r2 = playback r1 \<and> room_id r2 = room_id r1"
    by (simp add: r2_def)
  have ps: "participants r2 =
      map_set (JStr sid) \<lparr>pid = JStr sid, name = val_or nmb (JStr ''Guest'')\<rparr> (participants r1)"
    by (simp add: r2_def)
  have ids: "joinedRoomId st2 = joinedRoomId st1"
    using id1 id2 by (simp add: r1_def)
  have others: "\<forall>k. k \<noteq> ?k \<longrightarrow> rooms st2 k = rooms st1 k"
    using rs2 by simp
  from j1 j2 at1 at2 keys ps host rest ids others show
    "\<exists>st1 st2 r1 r2.
         room_join rnda nowa sid (JStr s) nma st = Inr st1 \<and>
         room_join rndb nowb sid (JStr s) nmb st1 = Inr st2 \<and>
         rooms st1 (JStr (trim s)) = Some r1 \<and> rooms st2 (JStr (trim s)) = Some r2 \<and>
         map_keys (participants r2) = map_keys (participants r1) \<and>
         participants r2 =
           map_set (JStr sid) \<lparr>pid = JStr sid, name = val_or nmb (JStr ''Guest'')\<rparr> (participants r1) \<and>
         hostId r2 = hostId r1 \<and> source r2 = source r1 \<and> playback r2 = playback r1 \<and>
         room_id r2 = room_id r1 \<and> joinedRoomId st2 = joinedRoomId st1 \<and>
         (\<forall>k. k \<noteq> JStr (trim s) \<longrightarrow> rooms st2 k = rooms st1 k)"
    by blast
next
  assume t: "truthy roomId"
  from api_join_result [of roomId rnda rs nowa nma uid] t
  obtain base where
    rs1: "snd (api_join rnda nowa roomId nma uid rs) = rs(roomId \<mapsto> base
       \<lparr>participants := map_set uid \<lparr>pid = uid, name = val_or nma (JStr ''Guest''), lastSeen = nowa\<rparr>
                          (participants base),
        hostId := (if \<not> truthy (hostId base) then uid else hostId base)\<rparr>)"
    by auto
  define a1 where "a1 = base
       \<lparr>participants := map_set uid \<lparr>pid = uid, name = val_or nma (JStr ''Guest''), lastSeen = nowa\<rparr>
                          (participants base),
        hostId := (if \<not> truthy (hostId base) then uid else hostId base)\<rparr>"
  define rs1' where "rs1' = snd (api_join rnda nowa roomId nma uid rs)"
  from rs1 have at1: "rs1' roomId = Some a1" by (simp add: a1_def rs1'_def)
  from api_join_result [of roomId rndb rs1' nowb nmb uid] t at1
  have rs2: "snd (api_join rndb nowb roomId nmb uid rs1') = rs1'(roomId \<mapsto> a1
       \<lparr>participants := map_set uid \<lparr>pid = uid, name = val_or nmb (JStr ''Guest''), lastSeen = nowb\<rparr>
                          (participants a1),
        hostId := (if \<not> truthy (hostId a1) then uid else hostId a1)\<rparr>)"
    by auto
  define a2 where "a2 = a1
       \<lparr>participants := map_set uid \<lparr>pid = uid, name = val_or nmb (JStr ''Guest''), lastSeen = nowb\<rparr>
                          (participants a1),
        hostId := (if \<not> truthy (hostId a1) then uid else hostId a1)\<rparr>"
  define rs2' where "rs2' = snd (api_join rndb nowb roomId nmb uid rs1')"
  from rs2 have at2: "rs2' roomId = Some a2" by (simp add: a2_def rs2'_def)
  have keys: "map_keys (participants a2) = map_keys (participants a1)"
    by (simp add: a2_def a1_def map_keys_map_set_twice)
  have host: "hostId a2 = hostId a1"
    by (simp add: a2_def a1_def)
  have rest: "source a2 = source a1 \<and> playback a2 = playback a1 \<and> room_id a2 = room_id a1 \<and>
      messages a2 = messages a1"
    by (simp add: a2_def)
  have ps: "participants a2 =
      map_set uid \<lparr>pid = uid, name = val_or nmb (JStr ''Guest''), lastSeen = nowb\<rparr> (participants a1)"
    by (simp add: a2_def)
  have others: "\<forall>k. k \<noteq> roomId \<longrightarrow> rs2' k = rs1' k"
    using rs2 by (simp add: rs2'_def)
  from at1 at2 keys ps host rest others show
    "\<exists>rs1 rs2 a1 a2.
         snd (api_join rnda nowa roomId nma uid rs) = rs1 \<and>
         snd (api_join rndb nowb roomId nmb uid rs1) = rs2 \<and>
         rs1 roomId = Some a1 \<and> rs2 roomId = Some a2 \<and>
         map_keys (participants a2) = map_keys (participants a1) \<and>
         participants a2 =
           map_set uid \<lparr>pid = uid, name = val_or nmb (JStr ''Guest''), lastSeen = nowb\<rparr>
             (participants a1) \<and>
         hostId a2 = hostId a1 \<and> source a2 = source a1 \<and> playback a2 = playback a1 \<and>
         room_id a2 = room_id a1 \<and> messages a2 = messages a1 \<and>
         (\<forall>k. k \<noteq> roomId \<longrightarrow> rs2 k = rs1 k)"
    unfolding rs1'_def rs2'_def by blast
qed


theorem join_twice_witness:
  "(case room_join (\<lambda>i. 0) 9000 ''b'' (JStr ''ROOM42'') (JStr ''Bob'') ex_relay of
      Inl e \<Rightarrow> None
    | Inr st1 \<Rightarrow>
        (case room_join (\<lambda>i. 0) 9500 ''b'' (JStr ''ROOM42'') (JStr ''Bobby'') st1 of
           Inl e \<Rightarrow> None
         | Inr st2 \<Rightarrow>
             map_option (\<lambda>r. (map_values (participants r), hostId r))
               (rooms st2 (JStr ''ROOM42''))))
     = Some ([\<lparr>pid = JStr ''a'', name = JStr ''Ann''\<rparr>, \<lparr>pid = JStr ''b'', name = JStr ''Bobby''\<rparr>],
             JStr ''a'') \<and>
   map_option (\<lambda>r. (map_keys (participants r), hostId r))
     (snd (api_join (\<lambda>i. 0) 9500 (JStr ''ROOM42'') (JStr ''Bobby'') (JStr ''b'')
             (snd (api_join (\<lambda>i. 0) 9000 (JStr ''ROOM42'') (JStr ''Bob'') (JStr ''b'')
                     ex_api_rooms)))
        (JStr ''ROOM42''))
     = Some ([JStr ''a'', JStr ''b''], JStr ''a'')"
proof -
  note inst = join_twice [where s = "''ROOM42''" and rnda = "\<lambda>i. 0" and nowa = 9000 and sid = "''b''"
      and nma = "JStr ''Bob''" and st = ex_relay and rndb = "\<lambda>i. 0" and nowb = 9500
      and nmb = "JStr ''Bobby''" and roomId = "JStr ''ROOM42''" and uid = "JStr ''b''"
      and rs = ex_api_rooms]
  have relay: "(case room_join (\<lambda>i. 0) 9000 ''b'' (JStr ''ROOM42'') (JStr ''Bob'') ex_relay of
      Inl e \<Rightarrow> None
    | Inr st1 \<Rightarrow>
        (case room_join (\<lambda>i. 0) 9500 ''b'' (JStr ''ROOM42'') (JStr ''Bobby'') st1 of
           Inl e \<Rightarrow> None
         | Inr st2 \<Rightarrow>
             map_option (\<lambda>r. (map_values (participants r), hostId r))
               (rooms st2 (JStr ''ROOM42''))))
     = Some ([\<lparr>pid = JStr ''a'', name = JStr ''Ann''\<rparr>, \<lparr>pid = JStr ''b'', name = JStr ''Bobby''\<rparr>],
             JStr ''a'')"
    by (simp add: room_join_def join_rid_def ex_trim getOrCreateRoom_def Let_def val_or_def
          ex_relay_def ex_room_def map_values_def)
  from inst obtain rs1 rs2 a1 a2 where
    api: "snd (api_join (\<lambda>i. 0) 9000 (JStr ''ROOM42'') (JStr ''Bob'') (JStr ''b'') ex_api_rooms) = rs1"
      "snd (api_join (\<lambda>i. 0) 9500 (JStr ''ROOM42'') (JStr ''Bobby'') (JStr ''b'') rs1) = rs2"
      "rs1 (JStr ''ROOM42'') = Some a1" "rs2 (JStr ''ROOM42'') = Some a2"
      "map_keys (participants a2) = map_keys (participants a1)" "hostId a2 = hostId a1"
    by auto
  have first: "map_option (\<lambda>r. (map_keys (participants r), hostId r))
      (snd (api_join (\<lambda>i. 0) 9000 (JStr ''ROOM42'') (JStr ''Bob'') (JStr ''b'') ex_api_rooms)
         (JStr ''ROOM42''))
     = Some ([JStr ''a'', JStr ''b''], JStr ''a'')"
    by (simp add: api_join_def api_getOrCreateRoom_def Let_def ex_api_rooms_def ex_api_room_def
          map_keys_def)
  with api have "map_keys (participants a2) = [JStr ''a'', JStr ''b''] \<and> hostId a2 = JStr ''a''"
    by auto
  with api relay show ?thesis by auto
qed

subsection \<open>The playback clock\<close>

text \<open>
  C3. A paused snapshot is at \<^verbatim>\<open>at\<close> at every instant. A playing snapshot with the rate
  \<open>r\<close>, read \<open>\<Delta>\<close> seconds (\<open>1000 * \<Delta>\<close> milliseconds) after its \<^verbatim>\<open>ts\<close>, is at
  \<^verbatim>\<open>at + \<Delta> * r\<close>: for every rate that is a number other than 0, so for every positive rate,
  which is what the data model admits, and for the snapshot of every room in every state
  the relay can reach, which is what \<^verbatim>\<open>sync:request\<close> passes to \<^verbatim>\<open>effectiveTime\<close>.
\<close>

theorem effectiveTime_extrapolates:
  "(status pb = Paused \<longrightarrow> effectiveTime now pb = at_sec pb) \<and>
   (status pb = Playing \<and> ts pb = Fin t \<and> num_truthy (rate pb) \<and> 0 \<le> \<Delta> \<longrightarrow>
      effectiveTime (t + 1000 * \<Delta>) pb = js_add (at_sec pb) (js_mul (Fin \<Delta>) (rate pb))) \<and>
   (status pb = Playing \<and> ts pb = Fin t \<and> at_sec pb = Fin a \<and> rate pb = Fin r \<and> 0 < r \<and>
    0 \<le> \<Delta> \<longrightarrow>
      effectiveTime (t + 1000 * \<Delta>) pb = Fin (a + \<Delta> * r)) \<and>
   (reachable h \<and> all_rooms h k = Some room \<and> status (playback room) = Playing \<and>
    ts (playback room) = Fin t \<and> 0 \<le> \<Delta> \<longrightarrow>
      (\<exists>a r. at_sec (playback room) = Fin a \<and> rate (playback room) = Fin r \<and> r \<noteq> 0 \<and>
         effectiveTime (t + 1000 * \<Delta>) (playback room) = Fin (a + \<Delta> * r)))"
proof (intro conjI impI)
  assume "status pb = Paused"
  then show "effectiveTime now pb = at_sec pb"
    by (simp add: effectiveTime_def)
next
  assume "status pb = Playing \<and> ts pb = Fin t \<and> num_truthy (rate pb) \<and> 0 \<le> \<Delta>"
  then show "effectiveTime (t + 1000 * \<Delta>) pb = js_add (at_sec pb) (js_mul (Fin \<Delta>) (rate pb))"
    by (simp add: effectiveTime_def num_or_def)
next
  assume "status pb = Playing \<and> ts pb = Fin t \<and> at_sec pb = Fin a \<and> rate pb = Fin r \<and> 0 < r \<and>
    0 \<le> \<Delta>"
  then show "effectiveTime (t + 1000 * \<Delta>) pb = Fin (a + \<Delta> * r)"
    by (simp add: effectiveTime_def num_or_def num_truthy_def)
next
  assume h: "reachable h \<and> all_rooms h k = Some room \<and> status (playback room) = Playing \<and>
    ts (playback room) = Fin t \<and> 0 \<le> \<Delta>"
  then have "room_ok k room"
    using reachable_inv hub_inv_room_ok by blast
  then have "num_truthy (rate (playback room))" and "at_sec (playback room) \<noteq> NaN"
    by (simp_all add: room_ok_def)
  then obtain a r where ar: "at_sec (playback room) = Fin a" "rate (playback room) = Fin r" "r \<noteq> 0"
    by (cases "at_sec (playback room)"; cases "rate (playback room)")
       (auto simp: num_truthy_def)
  with h have "effectiveTime (t + 1000 * \<Delta>) (playback room) = Fin (a + \<Delta> * r)"
    by (simp add: effectiveTime_def num_or_def num_truthy_def)
  with ar show "\<exists>a r. at_sec (playback room) = Fin a \<and> rate (playback room) = Fin r \<and> r \<noteq> 0 \<and>
         effectiveTime (t + 1000 * \<Delta>) (playback room) = Fin (a + \<Delta> * r)"
    by blast
qed

theorem effectiveTime_extrapolates_witness:
  "effectiveTime 99 \<lparr>status = Paused, at_sec = Fin 42, rate = Fin 2, ts = Fin 0\<rparr> = Fin 42 \<and>
   effectiveTime 5000 \<lparr>status = Playing, at_sec = Fin 10, rate = Fin 2, ts = Fin 2000\<rparr> = Fin 16 \<and>
   reachable (run ex_events) \<and> all_rooms (run ex_events) (JStr ''ROOM42'') = Some ex_room \<and>
   effectiveTime 3500 (playback ex_room) = Fin 16"
proof -
  have paused: "effectiveTime 99 \<lparr>status = Paused, at_sec = Fin 42, rate = Fin 2, ts = Fin 0\<rparr> = Fin 42"
    using effectiveTime_extrapolates
            [where pb = "\<lparr>status = Paused, at_sec = Fin 42, rate = Fin 2, ts = Fin 0\<rparr>"
               and now = 99]
    by simp
  have playing: "effectiveTime 5000 \<lparr>status = Playing, at_sec = Fin 10, rate = Fin 2, ts = Fin 2000\<rparr>
      = Fin 16"
    using effectiveTime_extrapolates
            [where pb = "\<lparr>status = Playing, at_sec = Fin 10, rate = Fin 2, ts = Fin 2000\<rparr>"
               and t = 2000 and a = 10 and r = 2 and \<Delta> = 3]
    by simp
  have "\<exists>a r. at_sec (playback ex_room) = Fin a \<and> rate (playback ex_room) = Fin r \<and> r \<noteq> 0 \<and>
         effectiveTime (500 + 1000 * 3) (playback ex_room) = Fin (a + 3 * r)"
    using effectiveTime_extrapolates
            [where h = "run ex_events" and k = "JStr ''ROOM42''" and room = ex_room and t = 500
               and \<Delta> = 3]
          reachable_run ex_run_rooms
    by (simp add: ex_room_def)
  then have stored: "effectiveTime 3500 (playback ex_room) = Fin 16"
    by (auto simp: ex_room_def)
  from paused playing stored reachable_run ex_run_rooms show ?thesis by blast
qed

end
